theory Spec2Isabelle
  imports Main
begin

section \<open>Data model\<close>

text \<open>
  The composite data provider of \<^verbatim>\<open>src/ontodia/data/composite/composite.ts\<close> presents a list
  of data providers as one. Its result shapes are declared in \<^verbatim>\<open>../model\<close> and the provider
  interface in \<^verbatim>\<open>../provider\<close>; neither file is among the sources, so the records
  below hold the fields that composite.ts and its callers read.
\<close>

text \<open>A \<^verbatim>\<open>Dictionary<T>\<close> is a JavaScript object used as a map from string keys to values.
  It is kept as an association list; \<^verbatim>\<open>d[id]\<close> is \<open>map_of d id\<close> and
  \<^verbatim>\<open>Object.keys(d).length === 0\<close> is \<open>d = []\<close>. Property names inherited from
  \<^verbatim>\<open>Object.prototype\<close> are not modelled.\<close>

type_synonym 'v Dictionary = "(string \<times> 'v) list"

text \<open>Modelled from the spec: the records of \<^verbatim>\<open>../model\<close> (missing). Each keeps the
  identifier fields that composite.ts reads (\<^verbatim>\<open>id\<close>, \<^verbatim>\<open>sourceId\<close>) and one string for the
  remaining content, which composite.ts only passes on.\<close>

datatype ClassModel = ClassModel (classModel_id: string) (classModel_label: string)

datatype LinkType = LinkType (linkType_id: string) (linkType_label: string)

datatype PropertyModel = PropertyModel (propertyModel_id: string) (propertyModel_label: string)

datatype ElementModel = ElementModel (elementModel_id: string) (elementModel_label: string)

datatype LinkModel = LinkModel (linkTypeId: string) (sourceId: string) (targetId: string)

datatype LinkCount = LinkCount (linkCount_id: string) (inCount: nat) (outCount: nat)

text \<open>Modelled from the spec: \<^verbatim>\<open>FilterParams\<close> of \<^verbatim>\<open>../provider\<close> (missing), with the fields
  that the SPARQL provider's \<^verbatim>\<open>filter\<close> reads.\<close>

record FilterParams =
  elementTypeId :: "string option"
  text_fp :: "string option"
  refElementId :: "string option"
  refElementLinkId :: "string option"
  linkDirection :: "string option"
  limit :: int
  offset :: int
  languageCode :: string

text \<open>The parameter object of \<^verbatim>\<open>linkElements\<close> (composite.ts, lines 159-165).\<close>

record LinkElementsParams =
  le_elementId :: string
  le_linkId :: string
  le_limit :: int
  le_offset :: int
  le_direction :: "string option"

subsection \<open>Promises\<close>

text \<open>A backend call returns a promise. A settled promise is either rejected with an error
  (\<open>Inl\<close>) or fulfilled with a value (\<open>Inr\<close>).\<close>

datatype error = Error string

type_synonym 'a Promise = "error + 'a"

text \<open>\<^verbatim>\<open>p.then(f)\<close>: a rejection passes through, a fulfilment is given to \<open>f\<close>.\<close>

definition then_promise :: "'a Promise \<Rightarrow> ('a \<Rightarrow> 'b Promise) \<Rightarrow> 'b Promise" where
  "then_promise p onFulfilled = (case p of Inl e \<Rightarrow> Inl e | Inr v \<Rightarrow> onFulfilled v)"

text \<open>\<^verbatim>\<open>p.catch(g)\<close>: a fulfilment passes through, a rejection is given to \<open>g\<close>.\<close>

definition catch_promise :: "'a Promise \<Rightarrow> (error \<Rightarrow> 'a Promise) \<Rightarrow> 'a Promise" where
  "catch_promise p onRejected = (case p of Inl e \<Rightarrow> onRejected e | Inr v \<Rightarrow> Inr v)"

text \<open>\<^verbatim>\<open>Promise.all(ps)\<close> keeps one slot per input promise. Each time an input promise
  fulfils, its value is stored in the slot of its \<^emph>\<open>index\<close>; once every slot is filled the
  result fulfils with the slots in index order. The first input promise to reject rejects
  the result. \<open>events\<close> is the order in which the input promises settle; when the events
  run out before every slot is filled the result stays pending (\<open>None\<close>).\<close>

fun Promise_all_loop :: "nat list \<Rightarrow> 'a Promise list \<Rightarrow> 'a option list \<Rightarrow> 'a list Promise option" where
  "Promise_all_loop [] ps slots =
     (if list_all (\<lambda>s. s \<noteq> None) slots then Some (Inr (map the slots)) else None)"
| "Promise_all_loop (i # events) ps slots =
     (if list_all (\<lambda>s. s \<noteq> None) slots then Some (Inr (map the slots))
      else if i < length ps then
        (case ps ! i of
           Inl e \<Rightarrow> Some (Inl e)
         | Inr v \<Rightarrow> Promise_all_loop events ps (slots[i := Some v]))
      else Promise_all_loop events ps slots)"

text \<open>The input promise of index \<open>i\<close> settles at time \<open>latency i\<close>; promises settle in the
  order of their times (ties in index order).\<close>

definition completionOrder :: "(nat \<Rightarrow> nat) \<Rightarrow> nat \<Rightarrow> nat list" where
  "completionOrder latency n = sort_key latency [0..<n]"

definition Promise_all :: "(nat \<Rightarrow> nat) \<Rightarrow> 'a Promise list \<Rightarrow> 'a list Promise option" where
  "Promise_all latency ps =
     Promise_all_loop (completionOrder latency (length ps)) ps (replicate (length ps) None)"

subsection \<open>Providers\<close>

text \<open>The \<^verbatim>\<open>DataProvider\<close> interface: ten asynchronous read operations. A provider is given by
  the settled promise it answers each request with; a call that throws before it returns a
  promise is not part of the model. The single-field parameter objects
  (\<^verbatim>\<open>{propertyIds}\<close>, \<^verbatim>\<open>{classIds}\<close>, \<^verbatim>\<open>{linkTypeIds}\<close>, \<^verbatim>\<open>{elementIds}\<close>, \<^verbatim>\<open>{elementId}\<close>)
  are represented by the value of their field, and \<^verbatim>\<open>{elementIds, linkTypeIds}\<close> by a pair.\<close>

record DataProvider =
  dp_classTree :: "unit \<Rightarrow> ClassModel list Promise"
  dp_propertyInfo :: "string list \<Rightarrow> PropertyModel Dictionary Promise"
  dp_classInfo :: "string list \<Rightarrow> ClassModel list Promise"
  dp_linkTypesInfo :: "string list \<Rightarrow> LinkType list Promise"
  dp_linkTypes :: "unit \<Rightarrow> LinkType list Promise"
  dp_elementInfo :: "string list \<Rightarrow> ElementModel Dictionary Promise"
  dp_linksInfo :: "string list \<times> string list \<Rightarrow> LinkModel list Promise"
  dp_linkTypesOf :: "string \<Rightarrow> LinkCount list Promise"
  dp_linkElements :: "LinkElementsParams \<Rightarrow> ElementModel Dictionary Promise"
  dp_filter :: "FilterParams \<Rightarrow> ElementModel Dictionary Promise"

record DPDefinition =
  name :: string
  dataProvider :: DataProvider

text \<open>An argument of the constructor is a \<^verbatim>\<open>DataProvider | DPDefinition\<close>.\<close>

datatype DPInput = Provider DataProvider | Definition DPDefinition

fun isDefenition :: "DPInput \<Rightarrow> bool" where
  "isDefenition (Definition d) = True"
| "isDefenition (Provider p) = False"

text \<open>\<^verbatim>\<open>CompositeResponse<T>\<close> is imported from \<^verbatim>\<open>./mergeUtils\<close>; composite.ts builds its values
  as \<^verbatim>\<open>{dataSourceName, response}\<close>, where \<^verbatim>\<open>response\<close> may be \<^verbatim>\<open>undefined\<close>.\<close>

record 'r CompositeResponse =
  dataSourceName :: string
  response :: "'r option"

text \<open>Modelled from the spec: the merge functions of \<^verbatim>\<open>./mergeUtils\<close> (missing) are total,
  pure functions from the ordered list of tagged results to the unified result. They are
  parameters of the operations.\<close>

record MergeUtils =
  mergeClassTree :: "ClassModel list CompositeResponse list \<Rightarrow> ClassModel list"
  mergePropertyInfo :: "PropertyModel Dictionary CompositeResponse list \<Rightarrow> PropertyModel Dictionary"
  mergeClassInfo :: "ClassModel list CompositeResponse list \<Rightarrow> ClassModel list"
  mergeLinkTypesInfo :: "LinkType list CompositeResponse list \<Rightarrow> LinkType list"
  mergeLinkTypes :: "LinkType list CompositeResponse list \<Rightarrow> LinkType list"
  mergeElementInfo :: "ElementModel Dictionary CompositeResponse list \<Rightarrow> ElementModel Dictionary"
  mergeLinksInfo :: "LinkModel list CompositeResponse list \<Rightarrow> LinkModel list"
  mergeLinkTypesOf :: "LinkCount list CompositeResponse list \<Rightarrow> LinkCount list"
  mergeLinkElements :: "ElementModel Dictionary CompositeResponse list \<Rightarrow> ElementModel Dictionary"
  mergeFilter :: "ElementModel Dictionary CompositeResponse list \<Rightarrow> ElementModel Dictionary"

section \<open>The composite data provider\<close>

text \<open>\<^verbatim>\<open>MergeMode\<close> is the string literal type \<^verbatim>\<open>'fetchAll' | 'sequentialFetching'\<close>; at run time
  it is a string, and every operation compares it with \<^verbatim>\<open>'fetchAll'\<close> only.\<close>

type_synonym MergeMode = string

record CompositeDataProvider =
  dataProviders :: "DPDefinition list"
  mergeMode :: MergeMode

subsection \<open>Constructor\<close>

text \<open>Decimal digits of a number, as \<^verbatim>\<open>'dataProvider_' + dpCounter\<close> prints it.\<close>

fun string_of_nat :: "nat \<Rightarrow> string" where
  "string_of_nat n =
     (if n < 10 then [''0123456789'' ! n]
      else string_of_nat (n div 10) @ [''0123456789'' ! (n mod 10)])"

declare string_of_nat.simps [simp del]

text \<open>The \<^verbatim>\<open>map\<close> of the constructor with its counter \<^verbatim>\<open>dpCounter\<close>, which is incremented
  only when a bare provider is named. The \<open>Definition\<close> equation is the branch where
  \<open>isDefenition\<close> holds.\<close>

fun nameProviders :: "nat \<Rightarrow> DPInput list \<Rightarrow> DPDefinition list" where
  "nameProviders dpCounter [] = []"
| "nameProviders dpCounter (Definition d # rest) = d # nameProviders dpCounter rest"
| "nameProviders dpCounter (Provider p # rest) =
     \<lparr>name = ''dataProvider_'' @ string_of_nat dpCounter, dataProvider = p\<rparr>
       # nameProviders (dpCounter + 1) rest"

text \<open>The constructor has no \<^verbatim>\<open>throw\<close>: it always returns the object (\<open>Inr\<close>). The optional
  second argument is \<^verbatim>\<open>params?: {mergeMode?: MergeMode}\<close>; \<^verbatim>\<open>params && params.mergeMode\<close> holds
  when both are present and the string is not empty.\<close>

definition "constructor" :: "DPInput list \<Rightarrow> MergeMode option option \<Rightarrow> error + CompositeDataProvider" where
  "constructor dataProviders_arg params =
     (let this = \<lparr>dataProviders = nameProviders 1 dataProviders_arg, mergeMode = ''fetchAll''\<rparr>
      in case params of
           Some (Some m) \<Rightarrow> if m \<noteq> [] then Inr (this\<lparr>mergeMode := m\<rparr>) else Inr this
         | _ \<Rightarrow> Inr this)"

subsection \<open>Fan-out to every provider\<close>

text \<open>\<^verbatim>\<open>processResults\<close> (lines 193-203): the response is tagged with the provider's name; a
  rejection is logged and becomes a tagged result with \<^verbatim>\<open>response: undefined\<close>.\<close>

definition processResults :: "'r Promise \<Rightarrow> string \<Rightarrow> 'r CompositeResponse Promise" where
  "processResults responsePromise dpName =
     catch_promise
       (then_promise responsePromise
          (\<lambda>response. Inr \<lparr>dataSourceName = dpName, response = Some response\<rparr>))
       (\<lambda>error. Inr \<lparr>dataSourceName = dpName, response = None\<rparr>)"

text \<open>Every operation returns, next to its promise, the calls it made to the providers: the
  index of the provider in \<^verbatim>\<open>this.dataProviders\<close> and the request it was given.\<close>

type_synonym ('q, 'u) Outcome = "(nat \<times> 'q) list \<times> 'u Promise option"

text \<open>\<^verbatim>\<open>fetchSequentially\<close> (lines 234-241). \<open>functionName\<close> selects the operation of a
  provider, as \<^verbatim>\<open>dp.dataProvider[functionName]\<close> does. All providers are called while the
  array of promises is built; the promises then settle in the order given by \<open>latency\<close>.\<close>

definition fetchSequentially ::
  "CompositeDataProvider \<Rightarrow> (nat \<Rightarrow> nat) \<Rightarrow> (DataProvider \<Rightarrow> 'q \<Rightarrow> 'r Promise) \<Rightarrow>
     ('r CompositeResponse list \<Rightarrow> 'u) \<Rightarrow> 'q \<Rightarrow> ('q, 'u) Outcome" where
  "fetchSequentially this latency functionName mergeFunction params =
     (let resultPromises =
            map (\<lambda>dp. processResults (functionName (dataProvider dp) params) (name dp))
              (dataProviders this)
      in (map (\<lambda>i. (i, params)) [0..<length (dataProviders this)],
          map_option (\<lambda>p. then_promise p (\<lambda>rs. Inr (mergeFunction rs)))
            (Promise_all latency resultPromises)))"

subsection \<open>One provider after the other\<close>

text \<open>\<^verbatim>\<open>queueProcessResults\<close> (lines 205-232). The callback closes over a variable of the
  calling operation (the id list still to be asked for) and reassigns it; \<open>ids\<close> is that
  variable, passed in and returned. The callback answers \<^verbatim>\<open>undefined\<close> (\<open>None\<close>) or the promise
  of a provider call, given here with the request of that call. The local \<^verbatim>\<open>counter\<close> and
  \<^verbatim>\<open>responseList\<close> are arguments of the recursion, \<open>calls\<close> collects the calls made.

  The handler of \<^verbatim>\<open>.catch\<close> also covers the \<^verbatim>\<open>.then\<close> callback, but that callback returns the
  promise of \<^verbatim>\<open>recursiveCall\<close>, which never rejects; so the handler runs exactly when the
  provider's promise rejects.\<close>

type_synonym ('s, 'q, 'r) CallBack =
  "'s \<Rightarrow> 'r option \<Rightarrow> DPDefinition \<Rightarrow> 's \<times> ('q \<times> 'r Promise) option"

function recursiveCall ::
  "('s, 'q, 'r) CallBack \<Rightarrow> DPDefinition list \<Rightarrow> 's \<Rightarrow> nat \<Rightarrow> 'r CompositeResponse list \<Rightarrow>
     (nat \<times> 'q) list \<Rightarrow> 'r option \<Rightarrow> (nat \<times> 'q) list \<times> 'r CompositeResponse list" where
  "recursiveCall callBack dps ids counter responseList calls result =
     (if length dps > counter then
        (let dp = dps ! counter in
         case callBack ids result dp of
           (ids', None) \<Rightarrow> (calls, responseList)
         | (ids', Some (request, callBackResult)) \<Rightarrow>
             (case callBackResult of
                Inr newResult \<Rightarrow>
                  recursiveCall callBack dps ids' (counter + 1)
                    (responseList @ [\<lparr>dataSourceName = name dp, response = Some newResult\<rparr>])
                    (calls @ [(counter, request)]) (Some newResult)
              | Inl error \<Rightarrow>
                  recursiveCall callBack dps ids' (counter + 1) responseList
                    (calls @ [(counter, request)]) result))
      else (calls, responseList))"
  by pat_completeness auto
termination
  by (relation "measure (\<lambda>(callBack, dps, ids, counter, responseList, calls, result).
        length dps - counter)") auto

declare recursiveCall.simps [simp del]

definition queueProcessResults ::
  "CompositeDataProvider \<Rightarrow> ('s, 'q, 'r) CallBack \<Rightarrow> 's \<Rightarrow>
     (nat \<times> 'q) list \<times> 'r CompositeResponse list Promise" where
  "queueProcessResults this callBack ids =
     (case recursiveCall callBack (dataProviders this) ids 0 [] [] None of
        (calls, responseList) \<Rightarrow> (calls, Inr responseList))"

text \<open>\<^verbatim>\<open>queueProcessResults(...).then(mergeFunction)\<close>.\<close>

definition then_merge ::
  "(nat \<times> 'q) list \<times> 'r CompositeResponse list Promise \<Rightarrow> ('r CompositeResponse list \<Rightarrow> 'u) \<Rightarrow>
     ('q, 'u) Outcome" where
  "then_merge queued mergeFunction =
     (fst queued, Some (then_promise (snd queued) (\<lambda>rs. Inr (mergeFunction rs))))"

subsection \<open>The ten operations\<close>

text \<open>Each operation is given with the arrow function it passes to
  \<^verbatim>\<open>queueProcessResults\<close>, named after the operation. \<^verbatim>\<open>!previousResult\<close> holds for
  \<^verbatim>\<open>undefined\<close> only (\<open>None\<close>): a list or a dictionary is an object. \<^verbatim>\<open>!previousResult[id]\<close>
  holds when the dictionary has no entry for the id (an entry is an object).\<close>

definition classTree ::
  "MergeUtils \<Rightarrow> CompositeDataProvider \<Rightarrow> (nat \<Rightarrow> nat) \<Rightarrow> (unit, ClassModel list) Outcome" where
  "classTree mu this latency =
     fetchSequentially this latency dp_classTree (mergeClassTree mu) ()"

definition propertyInfo_callBack :: "(string list, string list, PropertyModel Dictionary) CallBack" where
  "propertyInfo_callBack propertyIds previousResult dp =
     (let propertyIds = filter (\<lambda>id. case previousResult of None \<Rightarrow> True
                           | Some prev \<Rightarrow> map_of prev id = None) propertyIds
      in (propertyIds,
          if length propertyIds > 0
          then Some (propertyIds, dp_propertyInfo (dataProvider dp) propertyIds)
          else None))"

definition propertyInfo ::
  "MergeUtils \<Rightarrow> CompositeDataProvider \<Rightarrow> (nat \<Rightarrow> nat) \<Rightarrow> string list \<Rightarrow>
     (string list, PropertyModel Dictionary) Outcome" where
  "propertyInfo mu this latency params =
     (if mergeMode this = ''fetchAll'' then
        fetchSequentially this latency dp_propertyInfo (mergePropertyInfo mu) params
      else
        then_merge (queueProcessResults this propertyInfo_callBack params) (mergePropertyInfo mu))"

definition classInfo_callBack :: "(string list, string list, ClassModel list) CallBack" where
  "classInfo_callBack classIds previousResult dp =
     (let classIds = filter (\<lambda>id. case previousResult of None \<Rightarrow> True
                        | Some prev \<Rightarrow> id \<notin> set (map classModel_id prev)) classIds
      in (classIds,
          if length classIds > 0
          then Some (classIds, dp_classInfo (dataProvider dp) classIds)
          else None))"

definition classInfo ::
  "MergeUtils \<Rightarrow> CompositeDataProvider \<Rightarrow> (nat \<Rightarrow> nat) \<Rightarrow> string list \<Rightarrow>
     (string list, ClassModel list) Outcome" where
  "classInfo mu this latency params =
     (if mergeMode this = ''fetchAll'' then
        fetchSequentially this latency dp_classInfo (mergeClassInfo mu) params
      else
        then_merge (queueProcessResults this classInfo_callBack params) (mergeClassInfo mu))"

definition linkTypesInfo_callBack :: "(string list, string list, LinkType list) CallBack" where
  "linkTypesInfo_callBack linkTypeIds previousResult dp =
     (let linkTypeIds = filter (\<lambda>id. case previousResult of None \<Rightarrow> True
                           | Some prev \<Rightarrow> id \<notin> set (map linkType_id prev)) linkTypeIds
      in (linkTypeIds,
          if length linkTypeIds > 0
          then Some (linkTypeIds, dp_linkTypesInfo (dataProvider dp) linkTypeIds)
          else None))"

definition linkTypesInfo ::
  "MergeUtils \<Rightarrow> CompositeDataProvider \<Rightarrow> (nat \<Rightarrow> nat) \<Rightarrow> string list \<Rightarrow>
     (string list, LinkType list) Outcome" where
  "linkTypesInfo mu this latency params =
     (if mergeMode this = ''fetchAll'' then
        fetchSequentially this latency dp_linkTypesInfo (mergeLinkTypesInfo mu) params
      else
        then_merge (queueProcessResults this linkTypesInfo_callBack params) (mergeLinkTypesInfo mu))"

definition linkTypes ::
  "MergeUtils \<Rightarrow> CompositeDataProvider \<Rightarrow> (nat \<Rightarrow> nat) \<Rightarrow> (unit, LinkType list) Outcome" where
  "linkTypes mu this latency =
     fetchSequentially this latency dp_linkTypes (mergeLinkTypes mu) ()"

definition elementInfo_callBack :: "(string list, string list, ElementModel Dictionary) CallBack" where
  "elementInfo_callBack elementIds previousResult dp =
     (let elementIds = filter (\<lambda>id. case previousResult of None \<Rightarrow> True
                          | Some prev \<Rightarrow> map_of prev id = None) elementIds
      in (elementIds,
          if length elementIds > 0
          then Some (elementIds, dp_elementInfo (dataProvider dp) elementIds)
          else None))"

definition elementInfo ::
  "MergeUtils \<Rightarrow> CompositeDataProvider \<Rightarrow> (nat \<Rightarrow> nat) \<Rightarrow> string list \<Rightarrow>
     (string list, ElementModel Dictionary) Outcome" where
  "elementInfo mu this latency params =
     (if mergeMode this = ''fetchAll'' then
        fetchSequentially this latency dp_elementInfo (mergeElementInfo mu) params
      else
        then_merge (queueProcessResults this elementInfo_callBack params) (mergeElementInfo mu))"

text \<open>In \<^verbatim>\<open>linksInfo\<close> the narrowed variable is \<^verbatim>\<open>elementIds\<close> alone; every request carries
  the caller's \<^verbatim>\<open>linkTypeIds\<close>. The inner loop answers \<^verbatim>\<open>false\<close> when some link of the
  previous result has the id as its \<^verbatim>\<open>sourceId\<close>.\<close>

definition linksInfo_callBack ::
  "string list \<times> string list \<Rightarrow> (string list, string list \<times> string list, LinkModel list) CallBack" where
  "linksInfo_callBack params elementIds previousResult dp =
     (let elementIds = filter (\<lambda>id. case previousResult of None \<Rightarrow> True
                          | Some prev \<Rightarrow> \<not> list_ex (\<lambda>linkModel. sourceId linkModel = id) prev)
                        elementIds
      in (elementIds,
          if length elementIds > 0
          then Some ((elementIds, snd params),
                     dp_linksInfo (dataProvider dp) (elementIds, snd params))
          else None))"

definition linksInfo ::
  "MergeUtils \<Rightarrow> CompositeDataProvider \<Rightarrow> (nat \<Rightarrow> nat) \<Rightarrow> string list \<times> string list \<Rightarrow>
     (string list \<times> string list, LinkModel list) Outcome" where
  "linksInfo mu this latency params =
     (if mergeMode this = ''fetchAll'' then
        fetchSequentially this latency dp_linksInfo (mergeLinksInfo mu) params
      else
        then_merge (queueProcessResults this (linksInfo_callBack params) (fst params))
          (mergeLinksInfo mu))"

text \<open>The three remaining arrow functions keep no variable of their own (\<open>()\<close>) and pass the
  caller's \<^verbatim>\<open>params\<close> on as they are.\<close>

definition linkTypesOf_callBack :: "string \<Rightarrow> (unit, string, LinkCount list) CallBack" where
  "linkTypesOf_callBack params u previousResult dp =
     (u, if (case previousResult of None \<Rightarrow> True | Some prev \<Rightarrow> length prev = 0)
         then Some (params, dp_linkTypesOf (dataProvider dp) params)
         else None)"

definition linkTypesOf ::
  "MergeUtils \<Rightarrow> CompositeDataProvider \<Rightarrow> (nat \<Rightarrow> nat) \<Rightarrow> string \<Rightarrow>
     (string, LinkCount list) Outcome" where
  "linkTypesOf mu this latency params =
     (if mergeMode this = ''fetchAll'' then
        fetchSequentially this latency dp_linkTypesOf (mergeLinkTypesOf mu) params
      else
        then_merge (queueProcessResults this (linkTypesOf_callBack params) ())
          (mergeLinkTypesOf mu))"

definition linkElements_callBack ::
  "LinkElementsParams \<Rightarrow> (unit, LinkElementsParams, ElementModel Dictionary) CallBack" where
  "linkElements_callBack params u previousResult dp =
     (u, if (case previousResult of None \<Rightarrow> True | Some prev \<Rightarrow> length (map fst prev) = 0)
         then Some (params, dp_linkElements (dataProvider dp) params)
         else None)"

definition linkElements ::
  "MergeUtils \<Rightarrow> CompositeDataProvider \<Rightarrow> (nat \<Rightarrow> nat) \<Rightarrow> LinkElementsParams \<Rightarrow>
     (LinkElementsParams, ElementModel Dictionary) Outcome" where
  "linkElements mu this latency params =
     (if mergeMode this = ''fetchAll'' then
        fetchSequentially this latency dp_linkElements (mergeLinkElements mu) params
      else
        then_merge (queueProcessResults this (linkElements_callBack params) ())
          (mergeLinkElements mu))"

definition filter_callBack ::
  "FilterParams \<Rightarrow> (unit, FilterParams, ElementModel Dictionary) CallBack" where
  "filter_callBack params u previousResult dp =
     (u, if (case previousResult of None \<Rightarrow> True | Some prev \<Rightarrow> length (map fst prev) = 0)
         then Some (params, dp_filter (dataProvider dp) params)
         else None)"

definition filter_op ::
  "MergeUtils \<Rightarrow> CompositeDataProvider \<Rightarrow> (nat \<Rightarrow> nat) \<Rightarrow> FilterParams \<Rightarrow>
     (FilterParams, ElementModel Dictionary) Outcome" where
  "filter_op mu this latency params =
     (if mergeMode this = ''fetchAll'' then
        fetchSequentially this latency dp_filter (mergeFilter mu) params
      else
        then_merge (queueProcessResults this (filter_callBack params) ())
          (mergeFilter mu))"

section \<open>Notions used in the statements\<close>

text \<open>The tagged result of one provider: its response, or \<^verbatim>\<open>undefined\<close> when it rejected.\<close>

definition taggedResult :: "(DataProvider \<Rightarrow> 'q \<Rightarrow> 'r Promise) \<Rightarrow> 'q \<Rightarrow> DPDefinition \<Rightarrow> 'r CompositeResponse" where
  "taggedResult functionName params dp =
     \<lparr>dataSourceName = name dp,
      response = (case functionName (dataProvider dp) params of Inl e \<Rightarrow> None | Inr r \<Rightarrow> Some r)\<rparr>"

text \<open>The tagged results of all providers, in the order of \<^verbatim>\<open>this.dataProviders\<close>.\<close>

definition taggedResults :: "(DataProvider \<Rightarrow> 'q \<Rightarrow> 'r Promise) \<Rightarrow> 'q \<Rightarrow> DPDefinition list \<Rightarrow> 'r CompositeResponse list" where
  "taggedResults functionName params dps = map (taggedResult functionName params) dps"

text \<open>The shape shared by the five narrowing arrow functions: \<open>resolved prev id\<close> says that
  the previous result answers the id, \<open>mk\<close> builds the request from the narrowed ids.\<close>

definition narrowCallBack ::
  "('r \<Rightarrow> string \<Rightarrow> bool) \<Rightarrow> (DataProvider \<Rightarrow> 'q \<Rightarrow> 'r Promise) \<Rightarrow> (string list \<Rightarrow> 'q) \<Rightarrow>
     (string list, 'q, 'r) CallBack" where
  "narrowCallBack resolved functionName mk ids previousResult dp =
     (let ids' = filter (\<lambda>id. case previousResult of None \<Rightarrow> True
                                | Some prev \<Rightarrow> \<not> resolved prev id) ids
      in (ids', if ids' \<noteq> [] then Some (mk ids', functionName (dataProvider dp) (mk ids')) else None))"

text \<open>The shape shared by the three found-or-empty arrow functions.\<close>

definition binaryCallBack ::
  "('r \<Rightarrow> bool) \<Rightarrow> (DataProvider \<Rightarrow> 'q \<Rightarrow> 'r Promise) \<Rightarrow> 'q \<Rightarrow> (unit, 'q, 'r) CallBack" where
  "binaryCallBack isEmpty functionName params u previousResult dp =
     (u, if (case previousResult of None \<Rightarrow> True | Some prev \<Rightarrow> isEmpty prev)
         then Some (params, functionName (dataProvider dp) params) else None)"

text \<open>The recursion of \<^verbatim>\<open>recursiveCall\<close> over the providers that are left, giving the calls and
  tagged results it adds.\<close>

fun queue ::
  "('s, 'q, 'r) CallBack \<Rightarrow> nat \<Rightarrow> DPDefinition list \<Rightarrow> 's \<Rightarrow> 'r option \<Rightarrow>
     (nat \<times> 'q) list \<times> 'r CompositeResponse list" where
  "queue callBack i [] ids result = ([], [])"
| "queue callBack i (dp # dps) ids result =
     (case callBack ids result dp of
        (ids', None) \<Rightarrow> ([], [])
      | (ids', Some (request, Inr newResult)) \<Rightarrow>
          (case queue callBack (i + 1) dps ids' (Some newResult) of
             (cs, rs) \<Rightarrow> ((i, request) # cs,
                          \<lparr>dataSourceName = name dp, response = Some newResult\<rparr> # rs))
      | (ids', Some (request, Inl e)) \<Rightarrow>
          (case queue callBack (i + 1) dps ids' result of
             (cs, rs) \<Rightarrow> ((i, request) # cs, rs)))"


text \<open>The sequence of calls as the specification words it for the found-or-empty
  operations: the providers are asked in registration order, each with the caller's
  parameters; a non-empty result ends the sequence; an empty result or a failure moves on
  to the next provider.\<close>

fun binaryCalls ::
  "('r \<Rightarrow> bool) \<Rightarrow> (DataProvider \<Rightarrow> 'q \<Rightarrow> 'r Promise) \<Rightarrow> 'q \<Rightarrow> nat \<Rightarrow> DPDefinition list \<Rightarrow>
     (nat \<times> 'q) list" where
  "binaryCalls isEmpty functionName params i [] = []"
| "binaryCalls isEmpty functionName params i (dp # dps) =
     (i, params) #
       (case functionName (dataProvider dp) params of
          Inr r \<Rightarrow> if isEmpty r then binaryCalls isEmpty functionName params (i + 1) dps else []
        | Inl e \<Rightarrow> binaryCalls isEmpty functionName params (i + 1) dps)"

text \<open>A provider has nothing for a found-or-empty request when its call fails or answers
  an empty result.\<close>

definition nothingFound ::
  "('r \<Rightarrow> bool) \<Rightarrow> (DataProvider \<Rightarrow> 'q \<Rightarrow> 'r Promise) \<Rightarrow> 'q \<Rightarrow> DPDefinition \<Rightarrow> bool" where
  "nothingFound isEmpty functionName params dp =
     (case functionName (dataProvider dp) params of Inl e \<Rightarrow> True | Inr r \<Rightarrow> isEmpty r)"

text \<open>The tagged results of the calls that succeeded, in the order of the calls.\<close>

definition succeeded ::
  "(DataProvider \<Rightarrow> 'q \<Rightarrow> 'r Promise) \<Rightarrow> DPDefinition list \<Rightarrow> (nat \<times> 'q) list \<Rightarrow> 'r CompositeResponse list" where
  "succeeded functionName dps calls =
     List.map_filter
       (\<lambda>(i, request). case functionName (dataProvider (dps ! i)) request of
            Inl e \<Rightarrow> None
          | Inr r \<Rightarrow> Some \<lparr>dataSourceName = name (dps ! i), response = Some r\<rparr>)
       calls"

section \<open>Merge functions after the specification\<close>

text \<open>Modelled from the spec: the merge functions of \<^verbatim>\<open>./mergeUtils\<close> are missing. The
  specification gives their tie-break rules: an absent payload contributes nothing; for
  dictionary-shaped results the payload of the earliest provider that produced a key is
  kept and later values for that key are discarded.\<close>

fun mergeDictionary :: "'v Dictionary CompositeResponse list \<Rightarrow> 'v Dictionary" where
  "mergeDictionary [] = []"
| "mergeDictionary (r # rs) =
     (case response r of
        None \<Rightarrow> mergeDictionary rs
      | Some d \<Rightarrow> d @ filter (\<lambda>(k, v). map_of d k = None) (mergeDictionary rs))"

text \<open>Modelled from the spec: list-shaped results are concatenated in registration order and
  then deduplicated by identity (\<open>key\<close>), keeping the first occurrence; count-shaped
  results are merged by link-type id, first provider wins.\<close>

definition keepFirst :: "('a \<Rightarrow> 'k) \<Rightarrow> 'a list \<Rightarrow> 'a list" where
  "keepFirst key xs = foldl (\<lambda>acc x. if key x \<in> set (map key acc) then acc else acc @ [x]) [] xs"

definition mergeList :: "('a \<Rightarrow> 'k) \<Rightarrow> 'a list CompositeResponse list \<Rightarrow> 'a list" where
  "mergeList key rs =
     keepFirst key (concat (map (\<lambda>r. case response r of None \<Rightarrow> [] | Some xs \<Rightarrow> xs) rs))"

definition specMergeUtils :: MergeUtils where
  "specMergeUtils =
     \<lparr>mergeClassTree = mergeList classModel_id,
      mergePropertyInfo = mergeDictionary,
      mergeClassInfo = mergeList classModel_id,
      mergeLinkTypesInfo = mergeList linkType_id,
      mergeLinkTypes = mergeList linkType_id,
      mergeElementInfo = mergeDictionary,
      mergeLinksInfo = mergeList (\<lambda>l. l),
      mergeLinkTypesOf = mergeList linkCount_id,
      mergeLinkElements = mergeDictionary,
      mergeFilter = mergeDictionary\<rparr>"

section \<open>Example providers\<close>

text \<open>A provider whose every call rejects.\<close>

definition rejecting :: "error \<Rightarrow> DataProvider" where
  "rejecting e =
     \<lparr>dp_classTree = (\<lambda>u. Inl e), dp_propertyInfo = (\<lambda>ids. Inl e), dp_classInfo = (\<lambda>ids. Inl e),
      dp_linkTypesInfo = (\<lambda>ids. Inl e), dp_linkTypes = (\<lambda>u. Inl e), dp_elementInfo = (\<lambda>ids. Inl e),
      dp_linksInfo = (\<lambda>q. Inl e), dp_linkTypesOf = (\<lambda>q. Inl e), dp_linkElements = (\<lambda>q. Inl e),
      dp_filter = (\<lambda>q. Inl e)\<rparr>"

text \<open>A provider over a fixed dictionary of elements: \<^verbatim>\<open>elementInfo\<close> answers the requested
  ids it holds, \<^verbatim>\<open>linkElements\<close> and \<^verbatim>\<open>filter\<close> answer all its elements, the other
  operations answer nothing.\<close>

definition holding :: "ElementModel Dictionary \<Rightarrow> DataProvider" where
  "holding elements =
     \<lparr>dp_classTree = (\<lambda>u. Inr []), dp_propertyInfo = (\<lambda>ids. Inr []), dp_classInfo = (\<lambda>ids. Inr []),
      dp_linkTypesInfo = (\<lambda>ids. Inr []), dp_linkTypes = (\<lambda>u. Inr []),
      dp_elementInfo = (\<lambda>ids. Inr (filter (\<lambda>(k, v). k \<in> set ids) elements)),
      dp_linksInfo = (\<lambda>q. Inr []), dp_linkTypesOf = (\<lambda>q. Inr []),
      dp_linkElements = (\<lambda>q. Inr elements), dp_filter = (\<lambda>q. Inr elements)\<rparr>"

text \<open>Two named providers that both hold element \<open>2\<close>, with different payloads.\<close>

definition providerA :: DPDefinition where
  "providerA =
     \<lparr>name = ''A'',
      dataProvider = holding [(''1'', ElementModel ''1'' ''a1''), (''2'', ElementModel ''2'' ''a2'')]\<rparr>"

definition providerB :: DPDefinition where
  "providerB =
     \<lparr>name = ''B'',
      dataProvider = holding [(''2'', ElementModel ''2'' ''b2''), (''3'', ElementModel ''3'' ''b3'')]\<rparr>"

text \<open>Completion times: all providers at once, and the later registered the earlier.\<close>

definition simultaneous :: "nat \<Rightarrow> nat" where
  "simultaneous i = 0"

definition lastFirst :: "nat \<Rightarrow> nat" where
  "lastFirst i = 5 - i"

definition fetchAllAB :: CompositeDataProvider where
  "fetchAllAB = \<lparr>dataProviders = [providerA, providerB], mergeMode = ''fetchAll''\<rparr>"

definition sequentialAB :: CompositeDataProvider where
  "sequentialAB = \<lparr>dataProviders = [providerA, providerB], mergeMode = ''sequentialFetching''\<rparr>"


text \<open>A registry whose first provider is down and whose second provider holds nothing.\<close>

definition sequentialDownEmptyAB :: CompositeDataProvider where
  "sequentialDownEmptyAB =
     \<lparr>dataProviders =
        [\<lparr>name = ''down'', dataProvider = rejecting (Error ''unreachable'')\<rparr>,
         \<lparr>name = ''empty'', dataProvider = holding []\<rparr>, providerA, providerB],
      mergeMode = ''sequentialFetching''\<rparr>"

definition textFilter :: FilterParams where
  "textFilter =
     \<lparr>elementTypeId = None, text_fp = Some ''a'', refElementId = None, refElementLinkId = None,
      linkDirection = None, limit = 10, offset = 0, languageCode = ''en''\<rparr>"

text \<open>The same registry with the provider at index \<open>i\<close> rejecting every call, and with
  that provider taken out.\<close>

definition failingAt :: "nat \<Rightarrow> error \<Rightarrow> CompositeDataProvider \<Rightarrow> CompositeDataProvider" where
  "failingAt i e this =
     this\<lparr>dataProviders :=
       (dataProviders this)[i := (dataProviders this ! i)\<lparr>dataProvider := rejecting e\<rparr>]\<rparr>"

definition without :: "nat \<Rightarrow> CompositeDataProvider \<Rightarrow> CompositeDataProvider" where
  "without i this =
     this\<lparr>dataProviders := take i (dataProviders this) @ drop (Suc i) (dataProviders this)\<rparr>"


section \<open>Parameter objects by reference\<close>

text \<open>The operations above are given with the \<^emph>\<open>values\<close> of their parameters. JavaScript
  passes an object by reference, and a provider may write to the parameter object it is
  given: the \<^verbatim>\<open>filter\<close> of the SPARQL provider starts with
  \<^verbatim>\<open>if (params.limit === 0) { params.limit = 100; }\<close>. This section gives
  \<^verbatim>\<open>fetchSequentially\<close> and \<^verbatim>\<open>queueProcessResults\<close> once more, with parameter objects as
  references into a store \<open>w\<close> that every provider call may change.

  A provider is reduced to its name and the method that the operation calls. The method
  gets the reference of its parameter object and the store, and gives back the store as it
  left it (its synchronous part) and its settled promise.\<close>

type_synonym ('w, 'r) Method = "nat \<Rightarrow> 'w \<Rightarrow> 'w \<times> 'r Promise"

type_synonym ('w, 'r) ProviderRef = "string \<times> ('w, 'r) Method"

text \<open>The \<^verbatim>\<open>map\<close> of \<^verbatim>\<open>fetchSequentially\<close>: the providers are called one after the other, each
  with the very reference \<^verbatim>\<open>params\<close>. The result lists the references passed.\<close>

fun callEach ::
  "('w, 'r) ProviderRef list \<Rightarrow> nat \<Rightarrow> 'w \<Rightarrow> 'w \<times> nat list \<times> 'r CompositeResponse Promise list" where
  "callEach [] params w = (w, [], [])"
| "callEach (dp # dps) params w =
     (case snd dp params w of
        (w1, responsePromise) \<Rightarrow>
          (case callEach dps params w1 of
             (w2, refs, promises) \<Rightarrow>
               (w2, params # refs, processResults responsePromise (fst dp) # promises)))"

definition fetchSequentially_ref ::
  "('w, 'r) ProviderRef list \<Rightarrow> (nat \<Rightarrow> nat) \<Rightarrow> ('r CompositeResponse list \<Rightarrow> 'u) \<Rightarrow> nat \<Rightarrow> 'w \<Rightarrow>
     'w \<times> nat list \<times> 'u Promise option" where
  "fetchSequentially_ref dps latency mergeFunction params w =
     (case callEach dps params w of
        (w', refs, resultPromises) \<Rightarrow>
          (w', refs,
           map_option (\<lambda>p. then_promise p (\<lambda>rs. Inr (mergeFunction rs)))
             (Promise_all latency resultPromises)))"

text \<open>\<^verbatim>\<open>recursiveCall\<close> over the providers that are left, as \<open>queue\<close> above. The arrow
  function makes the provider call itself, so it takes the store and gives it back.\<close>

type_synonym ('s, 'w, 'r) CallBackRef =
  "'s \<Rightarrow> 'r option \<Rightarrow> ('w, 'r) ProviderRef \<Rightarrow> 'w \<Rightarrow> 's \<times> 'w \<times> (nat \<times> 'r Promise) option"

fun queue_ref ::
  "('s, 'w, 'r) CallBackRef \<Rightarrow> ('w, 'r) ProviderRef list \<Rightarrow> 's \<Rightarrow> 'r option \<Rightarrow> 'w \<Rightarrow>
     'w \<times> nat list \<times> 'r CompositeResponse list" where
  "queue_ref callBack [] ids result w = (w, [], [])"
| "queue_ref callBack (dp # dps) ids result w =
     (case callBack ids result dp w of
        (ids', w1, None) \<Rightarrow> (w1, [], [])
      | (ids', w1, Some (request, Inr newResult)) \<Rightarrow>
          (case queue_ref callBack dps ids' (Some newResult) w1 of
             (w2, refs, rs) \<Rightarrow>
               (w2, request # refs, \<lparr>dataSourceName = fst dp, response = Some newResult\<rparr> # rs))
      | (ids', w1, Some (request, Inl e)) \<Rightarrow>
          (case queue_ref callBack dps ids' result w1 of
             (w2, refs, rs) \<Rightarrow> (w2, request # refs, rs)))"

text \<open>The arrow function of \<^verbatim>\<open>linkTypesOf\<close>, \<^verbatim>\<open>linkElements\<close> and \<^verbatim>\<open>filter\<close>: the provider is
  called with \<^verbatim>\<open>params\<close>, the reference the caller gave.\<close>

definition binaryCallBack_ref :: "('r \<Rightarrow> bool) \<Rightarrow> nat \<Rightarrow> (unit, 'w, 'r) CallBackRef" where
  "binaryCallBack_ref isEmpty params u previousResult dp w =
     (if (case previousResult of None \<Rightarrow> True | Some prev \<Rightarrow> isEmpty prev)
      then (case snd dp params w of (w1, p) \<Rightarrow> (u, w1, Some (params, p)))
      else (u, w, None))"

definition binary_ref ::
  "('r \<Rightarrow> bool) \<Rightarrow> ('w, 'r) ProviderRef list \<Rightarrow> ('r CompositeResponse list \<Rightarrow> 'u) \<Rightarrow> nat \<Rightarrow> 'w \<Rightarrow>
     'w \<times> nat list \<times> 'u Promise option" where
  "binary_ref isEmpty dps mergeFunction params w =
     (case queue_ref (binaryCallBack_ref isEmpty params) dps () None w of
        (w', refs, responseList) \<Rightarrow> (w', refs, Some (Inr (mergeFunction responseList))))"

text \<open>The store of the narrowable operations \<^verbatim>\<open>propertyInfo\<close>, \<^verbatim>\<open>classInfo\<close>,
  \<^verbatim>\<open>linkTypesInfo\<close> and \<^verbatim>\<open>elementInfo\<close>: the id arrays, and the parameter objects
  \<^verbatim>\<open>{ids: array}\<close>, each given by the reference of its array. (The objects that
  \<^verbatim>\<open>linksInfo\<close> builds hold the caller's \<^verbatim>\<open>linkTypeIds\<close> array as well.) A reference is an
  index; a new array or object is put at the end.\<close>

record Store =
  arrays :: "string list list"
  objects :: "nat list"

text \<open>The narrowing arrow function: \<^verbatim>\<open>ids = ids.filter(...)\<close> makes a new array and assigns it
  to the variable; \<^verbatim>\<open>{ids: ids}\<close> makes a new object around that same array, and the provider
  is called with the new object.\<close>

definition narrowCallBack_ref :: "('r \<Rightarrow> string \<Rightarrow> bool) \<Rightarrow> (nat, Store, 'r) CallBackRef" where
  "narrowCallBack_ref resolved ids previousResult dp st =
     (let filtered = filter (\<lambda>id. case previousResult of None \<Rightarrow> True
                                     | Some prev \<Rightarrow> \<not> resolved prev id) (arrays st ! ids);
          ids' = length (arrays st);
          st1 = st\<lparr>arrays := arrays st @ [filtered]\<rparr>
      in if length filtered > 0 then
           (let request = length (objects st1);
                st2 = st1\<lparr>objects := objects st1 @ [ids']\<rparr>
            in case snd dp request st2 of (st3, p) \<Rightarrow> (ids', st3, Some (request, p)))
         else (ids', st1, None))"

text \<open>A narrowable operation under \<^verbatim>\<open>sequentialFetching\<close>: \<^verbatim>\<open>let ids = params.ids\<close> reads the
  array reference out of the caller's object, then the queue runs.\<close>

definition narrowing_ref ::
  "('r \<Rightarrow> string \<Rightarrow> bool) \<Rightarrow> (Store, 'r) ProviderRef list \<Rightarrow> ('r CompositeResponse list \<Rightarrow> 'u) \<Rightarrow>
     nat \<Rightarrow> Store \<Rightarrow> Store \<times> nat list \<times> 'u Promise option" where
  "narrowing_ref resolved dps mergeFunction params st =
     (let ids = objects st ! params
      in case queue_ref (narrowCallBack_ref resolved) dps ids None st of
           (st', refs, responseList) \<Rightarrow> (st', refs, Some (Inr (mergeFunction responseList))))"

text \<open>A provider that leaves the store as it is, and one that removes nothing from it.\<close>

definition readOnly :: "('w, 'r) ProviderRef \<Rightarrow> bool" where
  "readOnly dp = (\<forall>ref w. fst (snd dp ref w) = w)"


text \<open>A provider of the first model as a provider by reference: it reads the parameter object
  it is given and writes nothing. The second form is for the store of id arrays.\<close>

definition byReference :: "(DataProvider \<Rightarrow> 'q \<Rightarrow> 'r Promise) \<Rightarrow> DPDefinition \<Rightarrow> ('q list, 'r) ProviderRef" where
  "byReference functionName dp =
     (name dp, \<lambda>params w. (w, functionName (dataProvider dp) (w ! params)))"

definition byReferenceIds ::
  "(DataProvider \<Rightarrow> string list \<Rightarrow> 'r Promise) \<Rightarrow> DPDefinition \<Rightarrow> (Store, 'r) ProviderRef" where
  "byReferenceIds functionName dp =
     (name dp, \<lambda>params st. (st, functionName (dataProvider dp) (arrays st ! (objects st ! params))))"

subsection \<open>Example methods\<close>








section \<open>Basic facts\<close>

lemma processResults_eq:
  "processResults p n = Inr \<lparr>dataSourceName = n, response = (case p of Inl e \<Rightarrow> None | Inr r \<Rightarrow> Some r)\<rparr>"
  by (simp add: processResults_def then_promise_def catch_promise_def split: sum.splits)

lemma Promise_all_loop_fulfilled:
  "length slots = length vs \<Longrightarrow>
   (\<forall>i < length vs. slots ! i = None \<or> slots ! i = Some (vs ! i)) \<Longrightarrow>
   (\<forall>i < length vs. slots ! i = None \<longrightarrow> i \<in> set events) \<Longrightarrow>
   Promise_all_loop events (map Inr vs) slots = Some (Inr vs)"
proof (induction events arbitrary: slots)
  case Nil
  have all: "\<forall>i < length vs. slots ! i = Some (vs ! i)"
  proof (intro allI impI)
    fix i assume i: "i < length vs"
    with Nil(3) have "slots ! i \<noteq> None" by auto
    with Nil(2) i show "slots ! i = Some (vs ! i)" by auto
  qed
  with Nil(1) have "map the slots = vs"
    by (intro nth_equalityI) auto
  moreover from all Nil(1) have "list_all (\<lambda>s. s \<noteq> None) slots"
    by (auto simp: list_all_length)
  ultimately show ?case by simp
next
  case (Cons i events)
  show ?case
  proof (cases "list_all (\<lambda>s. s \<noteq> None) slots")
    case True
    have "\<forall>i < length vs. slots ! i = Some (vs ! i)"
    proof (intro allI impI)
      fix j assume j: "j < length vs"
      with True Cons.prems(1) have "slots ! j \<noteq> None" by (simp add: list_all_length)
      with Cons.prems(2) j show "slots ! j = Some (vs ! j)" by auto
    qed
    with Cons.prems(1) have "map the slots = vs"
      by (intro nth_equalityI) auto
    with True show ?thesis by simp
  next
    case False
    show ?thesis
    proof (cases "i < length vs")
      case True
      have "Promise_all_loop events (map Inr vs) (slots[i := Some (vs ! i)]) = Some (Inr vs)"
      proof (rule Cons.IH)
        show "length (slots[i := Some (vs ! i)]) = length vs" using Cons.prems(1) by simp
        show "\<forall>j<length vs. slots[i := Some (vs ! i)] ! j = None \<or> slots[i := Some (vs ! i)] ! j = Some (vs ! j)"
        proof (intro allI impI)
          fix j assume j: "j < length vs"
          show "slots[i := Some (vs ! i)] ! j = None \<or> slots[i := Some (vs ! i)] ! j = Some (vs ! j)"
          proof (cases "j = i")
            case True
            with j Cons.prems(1) show ?thesis by simp
          next
            case False
            with j Cons.prems(2) show ?thesis by simp
          qed
        qed
        show "\<forall>j<length vs. slots[i := Some (vs ! i)] ! j = None \<longrightarrow> j \<in> set events"
        proof (intro allI impI)
          fix j assume j: "j < length vs" and n: "slots[i := Some (vs ! i)] ! j = None"
          from j n Cons.prems(1) have ji: "j \<noteq> i" by auto
          with n have "slots ! j = None" by simp
          with Cons.prems(3) j have "j \<in> set (i # events)" by blast
          with ji show "j \<in> set events" by simp
        qed
      qed
      with False True show ?thesis by simp
    next
      case F2: False
      have "Promise_all_loop events (map Inr vs) slots = Some (Inr vs)"
        using Cons.prems F2 by (intro Cons.IH) auto
      with False F2 show ?thesis by simp
    qed
  qed
qed

lemma set_completionOrder: "set (completionOrder latency n) = {0..<n}"
  by (simp add: completionOrder_def)

lemma Promise_all_fulfilled: "Promise_all latency (map Inr vs) = Some (Inr vs)"
  unfolding Promise_all_def
  by (rule Promise_all_loop_fulfilled) (auto simp: set_completionOrder)

lemma fetchSequentially_eq:
  "fetchSequentially this latency functionName mergeFunction params =
     (map (\<lambda>i. (i, params)) [0..<length (dataProviders this)],
      Some (Inr (mergeFunction (taggedResults functionName params (dataProviders this)))))"
proof -
  have "map (\<lambda>dp. processResults (functionName (dataProvider dp) params) (name dp)) (dataProviders this)
        = map Inr (taggedResults functionName params (dataProviders this))"
    by (simp add: taggedResults_def taggedResult_def processResults_eq)
  then show ?thesis
    by (simp add: fetchSequentially_def Promise_all_fulfilled then_promise_def)
qed

lemma recursiveCall_queue:
  "recursiveCall callBack dps ids counter responseList calls result =
     (calls @ fst (queue callBack counter (drop counter dps) ids result),
      responseList @ snd (queue callBack counter (drop counter dps) ids result))"
proof (induction callBack dps ids counter responseList calls result rule: recursiveCall.induct)
  case (1 callBack dps ids counter responseList calls result)
  show ?case
  proof (cases "counter < length dps")
    case False
    then show ?thesis by (subst recursiveCall.simps) simp
  next
    case True
    then have d: "drop counter dps = dps ! counter # drop (Suc counter) dps"
      by (simp add: Cons_nth_drop_Suc)
    obtain ids' r where cb: "callBack ids result (dps ! counter) = (ids', r)" by force
    show ?thesis
    proof (cases r)
      case None
      with True cb d show ?thesis by (subst recursiveCall.simps) simp
    next
      case (Some a)
      obtain request p where a: "a = (request, p)" by force
      show ?thesis
      proof (cases p)
        case (Inl e)
        from "1.IH"(1)[OF True refl cb[symmetric] Some a[symmetric] Inl] 
        show ?thesis using True cb d Some a Inl
          by (subst recursiveCall.simps) (simp split: prod.splits)
      next
        case (Inr newResult)
        from "1.IH"(2)[OF True refl cb[symmetric] Some a[symmetric] Inr] 
        show ?thesis using True cb d Some a Inr
          by (subst recursiveCall.simps) (simp split: prod.splits)
      qed
    qed
  qed
qed

lemma queueProcessResults_queue:
  "queueProcessResults this callBack ids =
     (fst (queue callBack 0 (dataProviders this) ids None),
      Inr (snd (queue callBack 0 (dataProviders this) ids None)))"
  by (simp add: queueProcessResults_def recursiveCall_queue split: prod.splits)


lemma then_merge_queue:
  "then_merge (queueProcessResults this callBack ids) mergeFunction =
     (fst (queue callBack 0 (dataProviders this) ids None),
      Some (Inr (mergeFunction (snd (queue callBack 0 (dataProviders this) ids None)))))"
  by (simp add: then_merge_def queueProcessResults_queue then_promise_def)

lemmas operation_defs =
  classTree_def propertyInfo_def classInfo_def linkTypesInfo_def linkTypes_def
  elementInfo_def linksInfo_def linkTypesOf_def linkElements_def filter_op_def

lemmas example_defs =
  fetchAllAB_def sequentialAB_def sequentialDownEmptyAB_def providerA_def providerB_def
  holding_def rejecting_def specMergeUtils_def textFilter_def simultaneous_def lastFirst_def

lemmas callBack_defs =
  propertyInfo_callBack_def classInfo_callBack_def linkTypesInfo_callBack_def
  elementInfo_callBack_def linksInfo_callBack_def linkTypesOf_callBack_def
  linkElements_callBack_def filter_callBack_def


section \<open>Fetching from all providers\<close>

text \<open>Claim C2. Under \<^verbatim>\<open>fetchAll\<close> every operation calls every provider with the caller's
  parameters and passes to its merge function the tagged results in the order of
  \<^verbatim>\<open>this.dataProviders\<close>, whatever the completion times \<open>latency\<close> of the providers are: the
  right-hand sides do not mention \<open>latency\<close>.\<close>

theorem fetchAll_registration_order:
  "mergeMode this = ''fetchAll'' \<Longrightarrow>
     classTree mu this latency =
       (map (\<lambda>i. (i, ())) [0..<length (dataProviders this)],
        Some (Inr (mergeClassTree mu (taggedResults dp_classTree () (dataProviders this)))))
   \<and> propertyInfo mu this latency propertyIds =
       (map (\<lambda>i. (i, propertyIds)) [0..<length (dataProviders this)],
        Some (Inr (mergePropertyInfo mu (taggedResults dp_propertyInfo propertyIds (dataProviders this)))))
   \<and> classInfo mu this latency classIds =
       (map (\<lambda>i. (i, classIds)) [0..<length (dataProviders this)],
        Some (Inr (mergeClassInfo mu (taggedResults dp_classInfo classIds (dataProviders this)))))
   \<and> linkTypesInfo mu this latency linkTypeIds =
       (map (\<lambda>i. (i, linkTypeIds)) [0..<length (dataProviders this)],
        Some (Inr (mergeLinkTypesInfo mu (taggedResults dp_linkTypesInfo linkTypeIds (dataProviders this)))))
   \<and> linkTypes mu this latency =
       (map (\<lambda>i. (i, ())) [0..<length (dataProviders this)],
        Some (Inr (mergeLinkTypes mu (taggedResults dp_linkTypes () (dataProviders this)))))
   \<and> elementInfo mu this latency elementIds =
       (map (\<lambda>i. (i, elementIds)) [0..<length (dataProviders this)],
        Some (Inr (mergeElementInfo mu (taggedResults dp_elementInfo elementIds (dataProviders this)))))
   \<and> linksInfo mu this latency linksParams =
       (map (\<lambda>i. (i, linksParams)) [0..<length (dataProviders this)],
        Some (Inr (mergeLinksInfo mu (taggedResults dp_linksInfo linksParams (dataProviders this)))))
   \<and> linkTypesOf mu this latency elementId =
       (map (\<lambda>i. (i, elementId)) [0..<length (dataProviders this)],
        Some (Inr (mergeLinkTypesOf mu (taggedResults dp_linkTypesOf elementId (dataProviders this)))))
   \<and> linkElements mu this latency linkParams =
       (map (\<lambda>i. (i, linkParams)) [0..<length (dataProviders this)],
        Some (Inr (mergeLinkElements mu (taggedResults dp_linkElements linkParams (dataProviders this)))))
   \<and> filter_op mu this latency filterParams =
       (map (\<lambda>i. (i, filterParams)) [0..<length (dataProviders this)],
        Some (Inr (mergeFilter mu (taggedResults dp_filter filterParams (dataProviders this)))))"
  by (simp add: operation_defs fetchSequentially_eq)

theorem fetchAll_registration_order_witness:
  "mergeMode fetchAllAB = ''fetchAll''
   \<and> elementInfo specMergeUtils fetchAllAB lastFirst [''1'', ''2'', ''3''] =
       ([(0, [''1'', ''2'', ''3'']), (1, [''1'', ''2'', ''3''])],
        Some (Inr [(''1'', ElementModel ''1'' ''a1''), (''2'', ElementModel ''2'' ''a2''),
                   (''3'', ElementModel ''3'' ''b3'')]))"
  using fetchAll_registration_order
    [where this = fetchAllAB and mu = specMergeUtils and latency = lastFirst and elementIds = "[''1'', ''2'', ''3'']"]
  by (simp add: fetchAllAB_def taggedResults_def taggedResult_def providerA_def providerB_def
      holding_def specMergeUtils_def upt_rec)

text \<open>Claim C5. \<^verbatim>\<open>classTree\<close> and \<^verbatim>\<open>linkTypes\<close> call every provider and merge all tagged
  results, whatever the value \<open>m\<close> of \<^verbatim>\<open>mergeMode\<close> is.\<close>

theorem whole_catalog_ignores_policy:
  "classTree mu (this\<lparr>mergeMode := m\<rparr>) latency =
     (map (\<lambda>i. (i, ())) [0..<length (dataProviders this)],
      Some (Inr (mergeClassTree mu (taggedResults dp_classTree () (dataProviders this)))))
   \<and> linkTypes mu (this\<lparr>mergeMode := m\<rparr>) latency =
     (map (\<lambda>i. (i, ())) [0..<length (dataProviders this)],
      Some (Inr (mergeLinkTypes mu (taggedResults dp_linkTypes () (dataProviders this)))))"
  by (simp add: classTree_def linkTypes_def fetchSequentially_eq)



section \<open>Fetching from one provider after the other\<close>

subsection \<open>The arrow functions and their shared shapes\<close>

lemma propertyInfo_callBack_narrow:
  "propertyInfo_callBack = narrowCallBack (\<lambda>prev id. map_of prev id \<noteq> None) dp_propertyInfo (\<lambda>ids. ids)"
  by (intro ext) (simp add: propertyInfo_callBack_def narrowCallBack_def Let_def cong: option.case_cong)

lemma classInfo_callBack_narrow:
  "classInfo_callBack = narrowCallBack (\<lambda>prev id. id \<in> set (map classModel_id prev)) dp_classInfo (\<lambda>ids. ids)"
  by (intro ext) (simp add: classInfo_callBack_def narrowCallBack_def Let_def cong: option.case_cong)

lemma linkTypesInfo_callBack_narrow:
  "linkTypesInfo_callBack = narrowCallBack (\<lambda>prev id. id \<in> set (map linkType_id prev)) dp_linkTypesInfo (\<lambda>ids. ids)"
  by (intro ext) (simp add: linkTypesInfo_callBack_def narrowCallBack_def Let_def cong: option.case_cong)

lemma elementInfo_callBack_narrow:
  "elementInfo_callBack = narrowCallBack (\<lambda>prev id. map_of prev id \<noteq> None) dp_elementInfo (\<lambda>ids. ids)"
  by (intro ext) (simp add: elementInfo_callBack_def narrowCallBack_def Let_def cong: option.case_cong)

lemma linksInfo_callBack_narrow:
  "linksInfo_callBack params =
     narrowCallBack (\<lambda>prev id. list_ex (\<lambda>linkModel. sourceId linkModel = id) prev) dp_linksInfo
       (\<lambda>ids. (ids, snd params))"
  by (intro ext) (simp add: linksInfo_callBack_def narrowCallBack_def Let_def cong: option.case_cong)

lemma linkTypesOf_callBack_binary:
  "linkTypesOf_callBack params = binaryCallBack (\<lambda>r. r = []) dp_linkTypesOf params"
  by (intro ext) (simp add: linkTypesOf_callBack_def binaryCallBack_def cong: option.case_cong)

lemma linkElements_callBack_binary:
  "linkElements_callBack params = binaryCallBack (\<lambda>r. r = []) dp_linkElements params"
  by (intro ext) (simp add: linkElements_callBack_def binaryCallBack_def cong: option.case_cong)

lemma filter_callBack_binary:
  "filter_callBack params = binaryCallBack (\<lambda>r. r = []) dp_filter params"
  by (intro ext) (simp add: filter_callBack_def binaryCallBack_def cong: option.case_cong)

lemmas callBack_shapes =
  propertyInfo_callBack_narrow classInfo_callBack_narrow linkTypesInfo_callBack_narrow
  elementInfo_callBack_narrow linksInfo_callBack_narrow linkTypesOf_callBack_binary
  linkElements_callBack_binary filter_callBack_binary

subsection \<open>Narrowing\<close>




subsection \<open>Found or empty\<close>

lemma queue_binary_found:
  "\<not> isE r \<Longrightarrow> queue (binaryCallBack isE f p) i dps u (Some r) = ([], [])"
  by (cases dps) (simp_all add: binaryCallBack_def)

lemma queue_binary:
  "(case prev of None \<Rightarrow> True | Some r \<Rightarrow> isE r) \<Longrightarrow>
   fst (queue (binaryCallBack isE f p) i dps u prev) = binaryCalls isE f p i dps"
proof (induction dps arbitrary: i prev)
  case Nil
  then show ?case by simp
next
  case (Cons dp dps)
  have cb: "binaryCallBack isE f p u prev dp = (u, Some (p, f (dataProvider dp) p))"
    using Cons.prems by (simp add: binaryCallBack_def)
  show ?case
  proof (cases "f (dataProvider dp) p")
    case (Inl e)
    with cb Cons.IH[OF Cons.prems, of "i + 1"] show ?thesis
      by (simp add: case_prod_beta)
  next
    case (Inr r)
    show ?thesis
    proof (cases "isE r")
      case True
      then have "fst (queue (binaryCallBack isE f p) (i + 1) dps u (Some r)) = binaryCalls isE f p (i + 1) dps"
        by (intro Cons.IH) simp
      with cb Inr True show ?thesis by (simp add: case_prod_beta)
    next
      case False
      with cb Inr show ?thesis by (simp add: queue_binary_found)
    qed
  qed
qed

lemma queue_binary_start:
  "fst (queue (binaryCallBack isE f p) 0 dps u None) = binaryCalls isE f p 0 dps"
  by (rule queue_binary) simp

lemma binaryCalls_closed:
  "binaryCalls isE f p i dps =
     map (\<lambda>k. (k, p)) [i ..< i + min (length dps) (Suc (length (takeWhile (nothingFound isE f p) dps)))]"
proof (induction dps arbitrary: i)
  case Nil
  then show ?case by simp
next
  case (Cons dp dps)
  show ?case
  proof (cases "nothingFound isE f p dp")
    case True
    then have "binaryCalls isE f p i (dp # dps) = (i, p) # binaryCalls isE f p (i + 1) dps"
      by (simp add: nothingFound_def split: sum.splits)
    also have "\<dots> = (i, p) # map (\<lambda>k. (k, p))
        [Suc i ..< Suc i + min (length dps) (Suc (length (takeWhile (nothingFound isE f p) dps)))]"
      by (simp add: Cons.IH)
    also have "\<dots> = map (\<lambda>k. (k, p))
        [i ..< i + min (length (dp # dps)) (Suc (length (takeWhile (nothingFound isE f p) (dp # dps))))]"
    proof -
      define m where "m = min (length dps) (Suc (length (takeWhile (nothingFound isE f p) dps)))"
      have "min (length (dp # dps)) (Suc (length (takeWhile (nothingFound isE f p) (dp # dps)))) = Suc m"
        using True by (simp add: m_def)
      moreover have "[i ..< i + Suc m] = i # [Suc i ..< Suc i + m]"
        by (simp add: upt_conv_Cons)
      ultimately show ?thesis by (simp add: m_def)
    qed
    finally show ?thesis .
  next
    case False
    then have "binaryCalls isE f p i (dp # dps) = [(i, p)]"
      by (simp add: nothingFound_def split: sum.splits)
    with False show ?thesis by simp
  qed
qed

lemma binaryCalls_closed_start:
  "binaryCalls isE f p 0 dps =
     map (\<lambda>k. (k, p)) [0 ..< min (length dps) (Suc (length (takeWhile (nothingFound isE f p) dps)))]"
  using binaryCalls_closed[of isE f p 0 dps] by simp



text \<open>Claim C4. Under \<^verbatim>\<open>sequentialFetching\<close> the calls made by \<^verbatim>\<open>linkTypesOf\<close>,
  \<^verbatim>\<open>linkElements\<close> and \<^verbatim>\<open>filter\<close> are those of \<open>binaryCalls\<close>: the providers are asked in
  registration order with the caller's parameters, up to and including the first provider
  that answers a non-empty result; the providers after it are not called, whatever they
  would answer. A provider that fails counts like one that answers an empty result.\<close>

theorem binary_short_circuit:
  "mergeMode this \<noteq> ''fetchAll'' \<Longrightarrow>
     fst (linkTypesOf mu this latency elementId) =
       binaryCalls (\<lambda>r. r = []) dp_linkTypesOf elementId 0 (dataProviders this)
   \<and> fst (linkTypesOf mu this latency elementId) =
       map (\<lambda>k. (k, elementId))
         [0 ..< min (length (dataProviders this))
                  (Suc (length (takeWhile (nothingFound (\<lambda>r. r = []) dp_linkTypesOf elementId)
                                  (dataProviders this))))]
   \<and> fst (linkElements mu this latency linkParams) =
       binaryCalls (\<lambda>r. r = []) dp_linkElements linkParams 0 (dataProviders this)
   \<and> fst (linkElements mu this latency linkParams) =
       map (\<lambda>k. (k, linkParams))
         [0 ..< min (length (dataProviders this))
                  (Suc (length (takeWhile (nothingFound (\<lambda>r. r = []) dp_linkElements linkParams)
                                  (dataProviders this))))]
   \<and> fst (filter_op mu this latency filterParams) =
       binaryCalls (\<lambda>r. r = []) dp_filter filterParams 0 (dataProviders this)
   \<and> fst (filter_op mu this latency filterParams) =
       map (\<lambda>k. (k, filterParams))
         [0 ..< min (length (dataProviders this))
                  (Suc (length (takeWhile (nothingFound (\<lambda>r. r = []) dp_filter filterParams)
                                  (dataProviders this))))]"
  by (simp add: operation_defs then_merge_queue callBack_shapes queue_binary_start
        flip: binaryCalls_closed_start)

text \<open>With a provider that is down, an empty provider, then A and B: the first three are
  called, B is not.\<close>

theorem binary_short_circuit_witness:
  "mergeMode sequentialDownEmptyAB \<noteq> ''fetchAll''
   \<and> fst (filter_op specMergeUtils sequentialDownEmptyAB simultaneous textFilter) =
       [(0, textFilter), (1, textFilter), (2, textFilter)]"
  using binary_short_circuit[of sequentialDownEmptyAB specMergeUtils simultaneous _ _ textFilter]
  by (simp add: sequentialDownEmptyAB_def providerA_def providerB_def holding_def rejecting_def)

subsection \<open>Tagged results of the queue\<close>

lemma succeeded_Nil: "succeeded f D [] = []"
  by (simp add: succeeded_def)

lemma succeeded_Cons:
  "succeeded f D ((i, q) # cs) =
     (case f (dataProvider (D ! i)) q of
        Inl e \<Rightarrow> succeeded f D cs
      | Inr r \<Rightarrow> \<lparr>dataSourceName = name (D ! i), response = Some r\<rparr> # succeeded f D cs)"
  by (simp add: succeeded_def List.map_filter_simps split: sum.splits)

lemma queue_succeeded:
  assumes consistent:
    "\<And>ids prev dp ids' q p. callBack ids prev dp = (ids', Some (q, p)) \<Longrightarrow> p = f (dataProvider dp) q"
  shows "snd (queue callBack (length pre) dps ids prev) =
           succeeded f (pre @ dps) (fst (queue callBack (length pre) dps ids prev))"
proof (induction dps arbitrary: pre ids prev)
  case Nil
  then show ?case by (simp add: succeeded_Nil)
next
  case (Cons dp dps)
  obtain ids' r where cb: "callBack ids prev dp = (ids', r)" by force
  have IH: "snd (queue callBack (length pre + 1) dps ids2 prev2) =
            succeeded f (pre @ dp # dps) (fst (queue callBack (length pre + 1) dps ids2 prev2))"
    for ids2 prev2
    using Cons.IH[of "pre @ [dp]" ids2 prev2] by simp
  show ?case
  proof (cases r)
    case None
    with cb show ?thesis by (simp add: succeeded_Nil)
  next
    case (Some a)
    obtain q p where a: "a = (q, p)" by force
    with cb Some have p: "p = f (dataProvider dp) q" using consistent by blast
    show ?thesis
    proof (cases p)
      case (Inl e)
      with p have fq: "f (dataProvider dp) q = Inl e" by simp
      from cb Some a Inl have "callBack ids prev dp = (ids', Some (q, Inl e))" by simp
      with fq IH[of ids' prev] show ?thesis
        by (simp add: case_prod_beta succeeded_Cons)
    next
      case (Inr newResult)
      with p have fq: "f (dataProvider dp) q = Inr newResult" by simp
      from cb Some a Inr have "callBack ids prev dp = (ids', Some (q, Inr newResult))" by simp
      with fq IH[of ids' "Some newResult"] show ?thesis
        by (simp add: case_prod_beta succeeded_Cons)
    qed
  qed
qed

lemma narrowCallBack_consistent:
  "narrowCallBack R f mk ids prev dp = (ids', Some (q, p)) \<Longrightarrow> p = f (dataProvider dp) q"
  by (auto simp: narrowCallBack_def Let_def split: if_splits)

lemma binaryCallBack_consistent:
  "binaryCallBack isE f params u prev dp = (u', Some (q, p)) \<Longrightarrow> p = f (dataProvider dp) q"
  by (auto simp: binaryCallBack_def split: if_splits)

lemma queue_narrow_succeeded:
  "snd (queue (narrowCallBack R f mk) 0 dps ids prev) =
     succeeded f dps (fst (queue (narrowCallBack R f mk) 0 dps ids prev))"
  using queue_succeeded[of "narrowCallBack R f mk" f "[]" dps ids prev]
  by (simp add: narrowCallBack_consistent)

lemma queue_binary_succeeded:
  "snd (queue (binaryCallBack isE f params) 0 dps u prev) =
     succeeded f dps (fst (queue (binaryCallBack isE f params) 0 dps u prev))"
  using queue_succeeded[of "binaryCallBack isE f params" f "[]" dps u prev]
  by (simp add: binaryCallBack_consistent)

lemma queue_indices:
  "sorted_wrt (<) (map fst (fst (queue callBack i dps ids prev)))
   \<and> (\<forall>k \<in> set (map fst (fst (queue callBack i dps ids prev))). i \<le> k \<and> k < i + length dps)"
proof (induction dps arbitrary: i ids prev)
  case Nil
  then show ?case by simp
next
  case (Cons dp dps)
  obtain ids' r where cb: "callBack ids prev dp = (ids', r)" by force
  show ?case
  proof (cases r)
    case None
    with cb show ?thesis by simp
  next
    case (Some a)
    obtain q p where a: "a = (q, p)" by force
    show ?thesis
    proof (cases p)
      case (Inl e)
      with cb Some a Cons.IH[of "i + 1" ids' prev] show ?thesis
        by (fastforce simp: case_prod_beta)
    next
      case (Inr newResult)
      with cb Some a Cons.IH[of "i + 1" ids' "Some newResult"] show ?thesis
        by (fastforce simp: case_prod_beta)
    qed
  qed
qed

lemma queue_sorted: "sorted_wrt (<) (map fst (fst (queue callBack 0 dps ids prev)))"
  using queue_indices[of callBack 0 dps ids prev] by simp

text \<open>Claim C10. Under \<^verbatim>\<open>sequentialFetching\<close> the list given to the merge function holds
  exactly one tagged result for each call that was made and succeeded, in the order of the
  calls, which is registration order; each of them carries a response. A call that failed
  and a provider that was not called have no entry.\<close>

theorem sequential_tagged_results:
  "mergeMode this \<noteq> ''fetchAll'' \<Longrightarrow>
     snd (propertyInfo mu this latency propertyIds) =
       Some (Inr (mergePropertyInfo mu
         (succeeded dp_propertyInfo (dataProviders this) (fst (propertyInfo mu this latency propertyIds)))))
   \<and> snd (classInfo mu this latency classIds) =
       Some (Inr (mergeClassInfo mu
         (succeeded dp_classInfo (dataProviders this) (fst (classInfo mu this latency classIds)))))
   \<and> snd (linkTypesInfo mu this latency linkTypeIds) =
       Some (Inr (mergeLinkTypesInfo mu
         (succeeded dp_linkTypesInfo (dataProviders this) (fst (linkTypesInfo mu this latency linkTypeIds)))))
   \<and> snd (elementInfo mu this latency elementIds) =
       Some (Inr (mergeElementInfo mu
         (succeeded dp_elementInfo (dataProviders this) (fst (elementInfo mu this latency elementIds)))))
   \<and> snd (linksInfo mu this latency linksParams) =
       Some (Inr (mergeLinksInfo mu
         (succeeded dp_linksInfo (dataProviders this) (fst (linksInfo mu this latency linksParams)))))
   \<and> snd (linkTypesOf mu this latency elementId) =
       Some (Inr (mergeLinkTypesOf mu
         (succeeded dp_linkTypesOf (dataProviders this) (fst (linkTypesOf mu this latency elementId)))))
   \<and> snd (linkElements mu this latency linkParams) =
       Some (Inr (mergeLinkElements mu
         (succeeded dp_linkElements (dataProviders this) (fst (linkElements mu this latency linkParams)))))
   \<and> snd (filter_op mu this latency filterParams) =
       Some (Inr (mergeFilter mu
         (succeeded dp_filter (dataProviders this) (fst (filter_op mu this latency filterParams)))))
   \<and> sorted_wrt (<) (map fst (fst (propertyInfo mu this latency propertyIds)))
   \<and> sorted_wrt (<) (map fst (fst (classInfo mu this latency classIds)))
   \<and> sorted_wrt (<) (map fst (fst (linkTypesInfo mu this latency linkTypeIds)))
   \<and> sorted_wrt (<) (map fst (fst (elementInfo mu this latency elementIds)))
   \<and> sorted_wrt (<) (map fst (fst (linksInfo mu this latency linksParams)))
   \<and> sorted_wrt (<) (map fst (fst (linkTypesOf mu this latency elementId)))
   \<and> sorted_wrt (<) (map fst (fst (linkElements mu this latency linkParams)))
   \<and> sorted_wrt (<) (map fst (fst (filter_op mu this latency filterParams)))"
  by (simp add: operation_defs then_merge_queue callBack_shapes queue_sorted
        flip: queue_narrow_succeeded queue_binary_succeeded)

text \<open>The provider that is down has no entry; the empty provider has one, with an empty
  response.\<close>

theorem sequential_tagged_results_witness:
  "mergeMode sequentialDownEmptyAB \<noteq> ''fetchAll''
   \<and> fst (elementInfo specMergeUtils sequentialDownEmptyAB simultaneous [''1'', ''2'', ''3'']) =
       [(0, [''1'', ''2'', ''3'']), (1, [''1'', ''2'', ''3'']), (2, [''1'', ''2'', ''3'']), (3, [''3''])]
   \<and> succeeded dp_elementInfo (dataProviders sequentialDownEmptyAB)
         (fst (elementInfo specMergeUtils sequentialDownEmptyAB simultaneous [''1'', ''2'', ''3''])) =
       [\<lparr>dataSourceName = ''empty'', response = Some []\<rparr>,
        \<lparr>dataSourceName = ''A'',
           response = Some [(''1'', ElementModel ''1'' ''a1''), (''2'', ElementModel ''2'' ''a2'')]\<rparr>,
        \<lparr>dataSourceName = ''B'', response = Some [(''3'', ElementModel ''3'' ''b3'')]\<rparr>]
   \<and> snd (elementInfo specMergeUtils sequentialDownEmptyAB simultaneous [''1'', ''2'', ''3'']) =
       Some (Inr [(''1'', ElementModel ''1'' ''a1''), (''2'', ElementModel ''2'' ''a2''),
                  (''3'', ElementModel ''3'' ''b3'')])"
proof -
  let ?ids = "[''1'', ''2'', ''3'']"
  have m: "mergeMode sequentialDownEmptyAB \<noteq> ''fetchAll''"
    by (simp add: sequentialDownEmptyAB_def)
  have calls: "fst (elementInfo specMergeUtils sequentialDownEmptyAB simultaneous ?ids) =
      [(0, ?ids), (1, ?ids), (2, ?ids), (3, [''3''])]"
    by (simp add: elementInfo_def then_merge_queue elementInfo_callBack_def example_defs Let_def)
  have tagged: "succeeded dp_elementInfo (dataProviders sequentialDownEmptyAB)
      [(0, ?ids), (1, ?ids), (2, ?ids), (3, [''3''])] =
       [\<lparr>dataSourceName = ''empty'', response = Some []\<rparr>,
        \<lparr>dataSourceName = ''A'',
           response = Some [(''1'', ElementModel ''1'' ''a1''), (''2'', ElementModel ''2'' ''a2'')]\<rparr>,
        \<lparr>dataSourceName = ''B'', response = Some [(''3'', ElementModel ''3'' ''b3'')]\<rparr>]"
    by (simp add: succeeded_Cons succeeded_Nil example_defs)
  have "snd (elementInfo specMergeUtils sequentialDownEmptyAB simultaneous ?ids) =
      Some (Inr (mergeElementInfo specMergeUtils
        (succeeded dp_elementInfo (dataProviders sequentialDownEmptyAB)
           (fst (elementInfo specMergeUtils sequentialDownEmptyAB simultaneous ?ids)))))"
    using sequential_tagged_results[OF m, of specMergeUtils simultaneous _ _ _ ?ids] by blast
  then have "snd (elementInfo specMergeUtils sequentialDownEmptyAB simultaneous ?ids) =
       Some (Inr [(''1'', ElementModel ''1'' ''a1''), (''2'', ElementModel ''2'' ''a2''),
                  (''3'', ElementModel ''3'' ''b3'')])"
    by (simp only: calls tagged) (simp add: specMergeUtils_def)
  with m calls tagged show ?thesis by simp
qed

section \<open>Fault isolation\<close>

subsection \<open>A rejecting provider\<close>

lemma dataProviders_failingAt:
  "i < length (dataProviders this) \<Longrightarrow>
   dataProviders (failingAt i e this) =
     take i (dataProviders this) @ (dataProviders this ! i)\<lparr>dataProvider := rejecting e\<rparr>
       # drop (Suc i) (dataProviders this)"
  by (simp add: failingAt_def upd_conv_take_nth_drop)

lemma mergeMode_failingAt [simp]: "mergeMode (failingAt i e this) = mergeMode this"
  by (simp add: failingAt_def)

lemma mergeMode_without [simp]: "mergeMode (without i this) = mergeMode this"
  by (simp add: without_def)

lemma dataProviders_without [simp]:
  "dataProviders (without i this) = take i (dataProviders this) @ drop (Suc i) (dataProviders this)"
  by (simp add: without_def)

lemma taggedResults_failingAt:
  assumes "i < length (dataProviders this)" and "\<And>q. f (rejecting e) q = Inl e"
  shows "taggedResults f p (dataProviders (failingAt i e this)) =
           (taggedResults f p (dataProviders this))
             [i := \<lparr>dataSourceName = name (dataProviders this ! i), response = None\<rparr>]"
  using assms by (simp add: failingAt_def taggedResults_def map_update taggedResult_def)

lemma rejecting_rejects:
  "dp_classTree (rejecting e) u = Inl e" "dp_propertyInfo (rejecting e) ids = Inl e"
  "dp_classInfo (rejecting e) ids = Inl e" "dp_linkTypesInfo (rejecting e) ids = Inl e"
  "dp_linkTypes (rejecting e) u = Inl e" "dp_elementInfo (rejecting e) ids = Inl e"
  "dp_linksInfo (rejecting e) lq = Inl e" "dp_linkTypesOf (rejecting e) eid = Inl e"
  "dp_linkElements (rejecting e) lp = Inl e" "dp_filter (rejecting e) fp = Inl e"
  by (simp_all add: rejecting_def)

lemma snd_queue_index:
  "snd (queue callBack i dps ids prev) = snd (queue callBack j dps ids prev)"
proof (induction dps arbitrary: i j ids prev)
  case Nil
  then show ?case by simp
next
  case (Cons dp dps)
  obtain ids' r where cb: "callBack ids prev dp = (ids', r)" by force
  show ?case
  proof (cases r)
    case None
    with cb show ?thesis by simp
  next
    case (Some a)
    obtain q p where a: "a = (q, p)" by force
    show ?thesis
    proof (cases p)
      case (Inl e)
      with cb Some a Cons.IH[of "i + 1" ids' prev "j + 1"] show ?thesis
        by (simp add: case_prod_beta)
    next
      case (Inr newResult)
      with cb Some a Cons.IH[of "i + 1" ids' "Some newResult" "j + 1"] show ?thesis
        by (simp add: case_prod_beta)
    qed
  qed
qed

lemma narrowCallBack_refilter:
  "narrowCallBack R f mk (filter (\<lambda>id. case prev of None \<Rightarrow> True | Some p \<Rightarrow> \<not> R p id) ids) prev dp =
   narrowCallBack R f mk ids prev dp"
  by (simp add: narrowCallBack_def)

lemma queue_narrow_refilter:
  "queue (narrowCallBack R f mk) i dps
     (filter (\<lambda>id. case prev of None \<Rightarrow> True | Some p \<Rightarrow> \<not> R p id) ids) prev =
   queue (narrowCallBack R f mk) i dps ids prev"
  by (cases dps) (simp_all add: narrowCallBack_refilter)

lemma queue_narrow_skip:
  assumes "\<And>q. f (dataProvider dp') q = Inl e"
  shows "snd (queue (narrowCallBack R f mk) i (dp' # post) ids prev) =
         snd (queue (narrowCallBack R f mk) j post ids prev)"
proof -
  define ids' where "ids' = filter (\<lambda>id. case prev of None \<Rightarrow> True | Some p \<Rightarrow> \<not> R p id) ids"
  have cb: "narrowCallBack R f mk ids prev dp =
      (ids', if ids' \<noteq> [] then Some (mk ids', f (dataProvider dp) (mk ids')) else None)" for dp
    by (simp add: narrowCallBack_def ids'_def Let_def)
  show ?thesis
  proof (cases "ids' = []")
    case True
    then show ?thesis by (cases post) (simp_all add: cb)
  next
    case False
    then have "snd (queue (narrowCallBack R f mk) i (dp' # post) ids prev) =
               snd (queue (narrowCallBack R f mk) (i + 1) post ids' prev)"
      by (simp add: cb assms case_prod_beta)
    also have "\<dots> = snd (queue (narrowCallBack R f mk) j post ids' prev)"
      by (rule snd_queue_index)
    also have "\<dots> = snd (queue (narrowCallBack R f mk) j post ids prev)"
      unfolding ids'_def by (simp only: queue_narrow_refilter)
    finally show ?thesis .
  qed
qed

lemma queue_binary_skip:
  assumes "\<And>q. f (dataProvider dp') q = Inl e"
  shows "snd (queue (binaryCallBack isE f p) i (dp' # post) u prev) =
         snd (queue (binaryCallBack isE f p) j post u prev)"
proof (cases "case prev of None \<Rightarrow> True | Some r \<Rightarrow> isE r")
  case True
  then have "snd (queue (binaryCallBack isE f p) i (dp' # post) u prev) =
             snd (queue (binaryCallBack isE f p) (i + 1) post u prev)"
    by (simp add: binaryCallBack_def assms case_prod_beta)
  then show ?thesis using snd_queue_index[of "binaryCallBack isE f p" "i + 1" post u prev j] by simp
next
  case False
  then obtain r where "prev = Some r" "\<not> isE r" by (cases prev) auto
  then show ?thesis by (metis queue_binary_found)
qed

lemma queue_prefix_skip:
  assumes skip: "\<And>i j ids prev. snd (queue callBack i (dp' # post) ids prev) =
                                   snd (queue callBack j post ids prev)"
  shows "snd (queue callBack i (pre @ dp' # post) ids prev) =
         snd (queue callBack i (pre @ post) ids prev)"
proof (induction pre arbitrary: i ids prev)
  case Nil
  then show ?case using skip by simp
next
  case (Cons dp pre)
  obtain ids' r where cb: "callBack ids prev dp = (ids', r)" by force
  show ?case
  proof (cases r)
    case None
    with cb show ?thesis by simp
  next
    case (Some a)
    obtain q p where a: "a = (q, p)" by force
    show ?thesis
    proof (cases p)
      case (Inl e)
      with cb Some a Cons.IH[of "i + 1" ids' prev] show ?thesis
        by (simp add: case_prod_beta)
    next
      case (Inr newResult)
      with cb Some a Cons.IH[of "i + 1" ids' "Some newResult"] show ?thesis
        by (simp add: case_prod_beta)
    qed
  qed
qed

lemma queue_narrow_failingAt:
  assumes "i < length (dataProviders this)" and "\<And>q. f (rejecting e) q = Inl e"
  shows "snd (queue (narrowCallBack R f mk) 0 (dataProviders (failingAt i e this)) ids prev) =
         snd (queue (narrowCallBack R f mk) 0 (dataProviders (without i this)) ids prev)"
proof -
  have "\<And>q. f (dataProvider ((dataProviders this ! i)\<lparr>dataProvider := rejecting e\<rparr>)) q = Inl e"
    using assms(2) by simp
  then show ?thesis
    unfolding dataProviders_failingAt[OF assms(1)] dataProviders_without
    by (intro queue_prefix_skip queue_narrow_skip)
qed

lemma queue_binary_failingAt:
  assumes "i < length (dataProviders this)" and "\<And>q. f (rejecting e) q = Inl e"
  shows "snd (queue (binaryCallBack isE f p) 0 (dataProviders (failingAt i e this)) u prev) =
         snd (queue (binaryCallBack isE f p) 0 (dataProviders (without i this)) u prev)"
proof -
  have "\<And>q. f (dataProvider ((dataProviders this ! i)\<lparr>dataProvider := rejecting e\<rparr>)) q = Inl e"
    using assms(2) by simp
  then show ?thesis
    unfolding dataProviders_failingAt[OF assms(1)] dataProviders_without
    by (intro queue_prefix_skip queue_binary_skip)
qed

text \<open>Claim C1, as amended. A provider that rejects never makes an operation fail. For
  \<^verbatim>\<open>classTree\<close> and \<^verbatim>\<open>linkTypes\<close>, and for every operation under \<^verbatim>\<open>fetchAll\<close>, the list given
  to the merge function is the list of all tagged results with the entry of the failed
  provider replaced by its name and an absent response. Under \<^verbatim>\<open>sequentialFetching\<close> the
  failed provider has no entry, and the operation resolves with the same output as on the
  registry without that provider.\<close>

theorem fault_isolation:
  "i < length (dataProviders this) \<Longrightarrow>
     snd (classTree mu (failingAt i e this) latency) =
       Some (Inr (mergeClassTree mu ((taggedResults dp_classTree () (dataProviders this))
         [i := \<lparr>dataSourceName = name (dataProviders this ! i), response = None\<rparr>])))
   \<and> snd (linkTypes mu (failingAt i e this) latency) =
       Some (Inr (mergeLinkTypes mu ((taggedResults dp_linkTypes () (dataProviders this))
         [i := \<lparr>dataSourceName = name (dataProviders this ! i), response = None\<rparr>])))
   \<and> (mergeMode this = ''fetchAll'' \<longrightarrow>
        snd (propertyInfo mu (failingAt i e this) latency propertyIds) =
          Some (Inr (mergePropertyInfo mu ((taggedResults dp_propertyInfo propertyIds (dataProviders this))
            [i := \<lparr>dataSourceName = name (dataProviders this ! i), response = None\<rparr>])))
      \<and> snd (classInfo mu (failingAt i e this) latency classIds) =
          Some (Inr (mergeClassInfo mu ((taggedResults dp_classInfo classIds (dataProviders this))
            [i := \<lparr>dataSourceName = name (dataProviders this ! i), response = None\<rparr>])))
      \<and> snd (linkTypesInfo mu (failingAt i e this) latency linkTypeIds) =
          Some (Inr (mergeLinkTypesInfo mu ((taggedResults dp_linkTypesInfo linkTypeIds (dataProviders this))
            [i := \<lparr>dataSourceName = name (dataProviders this ! i), response = None\<rparr>])))
      \<and> snd (elementInfo mu (failingAt i e this) latency elementIds) =
          Some (Inr (mergeElementInfo mu ((taggedResults dp_elementInfo elementIds (dataProviders this))
            [i := \<lparr>dataSourceName = name (dataProviders this ! i), response = None\<rparr>])))
      \<and> snd (linksInfo mu (failingAt i e this) latency linksParams) =
          Some (Inr (mergeLinksInfo mu ((taggedResults dp_linksInfo linksParams (dataProviders this))
            [i := \<lparr>dataSourceName = name (dataProviders this ! i), response = None\<rparr>])))
      \<and> snd (linkTypesOf mu (failingAt i e this) latency elementId) =
          Some (Inr (mergeLinkTypesOf mu ((taggedResults dp_linkTypesOf elementId (dataProviders this))
            [i := \<lparr>dataSourceName = name (dataProviders this ! i), response = None\<rparr>])))
      \<and> snd (linkElements mu (failingAt i e this) latency linkParams) =
          Some (Inr (mergeLinkElements mu ((taggedResults dp_linkElements linkParams (dataProviders this))
            [i := \<lparr>dataSourceName = name (dataProviders this ! i), response = None\<rparr>])))
      \<and> snd (filter_op mu (failingAt i e this) latency filterParams) =
          Some (Inr (mergeFilter mu ((taggedResults dp_filter filterParams (dataProviders this))
            [i := \<lparr>dataSourceName = name (dataProviders this ! i), response = None\<rparr>]))))
   \<and> (mergeMode this \<noteq> ''fetchAll'' \<longrightarrow>
        (\<exists>u. snd (propertyInfo mu (failingAt i e this) latency propertyIds) = Some (Inr u)
            \<and> snd (propertyInfo mu (without i this) latency propertyIds) = Some (Inr u))
      \<and> (\<exists>u. snd (classInfo mu (failingAt i e this) latency classIds) = Some (Inr u)
            \<and> snd (classInfo mu (without i this) latency classIds) = Some (Inr u))
      \<and> (\<exists>u. snd (linkTypesInfo mu (failingAt i e this) latency linkTypeIds) = Some (Inr u)
            \<and> snd (linkTypesInfo mu (without i this) latency linkTypeIds) = Some (Inr u))
      \<and> (\<exists>u. snd (elementInfo mu (failingAt i e this) latency elementIds) = Some (Inr u)
            \<and> snd (elementInfo mu (without i this) latency elementIds) = Some (Inr u))
      \<and> (\<exists>u. snd (linksInfo mu (failingAt i e this) latency linksParams) = Some (Inr u)
            \<and> snd (linksInfo mu (without i this) latency linksParams) = Some (Inr u))
      \<and> (\<exists>u. snd (linkTypesOf mu (failingAt i e this) latency elementId) = Some (Inr u)
            \<and> snd (linkTypesOf mu (without i this) latency elementId) = Some (Inr u))
      \<and> (\<exists>u. snd (linkElements mu (failingAt i e this) latency linkParams) = Some (Inr u)
            \<and> snd (linkElements mu (without i this) latency linkParams) = Some (Inr u))
      \<and> (\<exists>u. snd (filter_op mu (failingAt i e this) latency filterParams) = Some (Inr u)
            \<and> snd (filter_op mu (without i this) latency filterParams) = Some (Inr u)))"
proof (intro conjI impI)
  assume i: "i < length (dataProviders this)"
  note tagged = taggedResults_failingAt[OF i]
  show "snd (classTree mu (failingAt i e this) latency) =
       Some (Inr (mergeClassTree mu ((taggedResults dp_classTree () (dataProviders this))
         [i := \<lparr>dataSourceName = name (dataProviders this ! i), response = None\<rparr>])))"
    by (simp add: classTree_def fetchSequentially_eq tagged rejecting_rejects)
  show "snd (linkTypes mu (failingAt i e this) latency) =
       Some (Inr (mergeLinkTypes mu ((taggedResults dp_linkTypes () (dataProviders this))
         [i := \<lparr>dataSourceName = name (dataProviders this ! i), response = None\<rparr>])))"
    by (simp add: linkTypes_def fetchSequentially_eq tagged rejecting_rejects)
next
  assume i: "i < length (dataProviders this)" and m: "mergeMode this = ''fetchAll''"
  note tagged = taggedResults_failingAt[OF i]
  show "snd (propertyInfo mu (failingAt i e this) latency propertyIds) =
          Some (Inr (mergePropertyInfo mu ((taggedResults dp_propertyInfo propertyIds (dataProviders this))
            [i := \<lparr>dataSourceName = name (dataProviders this ! i), response = None\<rparr>])))"
    using m by (simp add: propertyInfo_def fetchSequentially_eq tagged rejecting_rejects)
  show "snd (classInfo mu (failingAt i e this) latency classIds) =
          Some (Inr (mergeClassInfo mu ((taggedResults dp_classInfo classIds (dataProviders this))
            [i := \<lparr>dataSourceName = name (dataProviders this ! i), response = None\<rparr>])))"
    using m by (simp add: classInfo_def fetchSequentially_eq tagged rejecting_rejects)
  show "snd (linkTypesInfo mu (failingAt i e this) latency linkTypeIds) =
          Some (Inr (mergeLinkTypesInfo mu ((taggedResults dp_linkTypesInfo linkTypeIds (dataProviders this))
            [i := \<lparr>dataSourceName = name (dataProviders this ! i), response = None\<rparr>])))"
    using m by (simp add: linkTypesInfo_def fetchSequentially_eq tagged rejecting_rejects)
  show "snd (elementInfo mu (failingAt i e this) latency elementIds) =
          Some (Inr (mergeElementInfo mu ((taggedResults dp_elementInfo elementIds (dataProviders this))
            [i := \<lparr>dataSourceName = name (dataProviders this ! i), response = None\<rparr>])))"
    using m by (simp add: elementInfo_def fetchSequentially_eq tagged rejecting_rejects)
  show "snd (linksInfo mu (failingAt i e this) latency linksParams) =
          Some (Inr (mergeLinksInfo mu ((taggedResults dp_linksInfo linksParams (dataProviders this))
            [i := \<lparr>dataSourceName = name (dataProviders this ! i), response = None\<rparr>])))"
    using m by (simp add: linksInfo_def fetchSequentially_eq tagged rejecting_rejects)
  show "snd (linkTypesOf mu (failingAt i e this) latency elementId) =
          Some (Inr (mergeLinkTypesOf mu ((taggedResults dp_linkTypesOf elementId (dataProviders this))
            [i := \<lparr>dataSourceName = name (dataProviders this ! i), response = None\<rparr>])))"
    using m by (simp add: linkTypesOf_def fetchSequentially_eq tagged rejecting_rejects)
  show "snd (linkElements mu (failingAt i e this) latency linkParams) =
          Some (Inr (mergeLinkElements mu ((taggedResults dp_linkElements linkParams (dataProviders this))
            [i := \<lparr>dataSourceName = name (dataProviders this ! i), response = None\<rparr>])))"
    using m by (simp add: linkElements_def fetchSequentially_eq tagged rejecting_rejects)
  show "snd (filter_op mu (failingAt i e this) latency filterParams) =
          Some (Inr (mergeFilter mu ((taggedResults dp_filter filterParams (dataProviders this))
            [i := \<lparr>dataSourceName = name (dataProviders this ! i), response = None\<rparr>])))"
    using m by (simp add: filter_op_def fetchSequentially_eq tagged rejecting_rejects)
next
  assume i: "i < length (dataProviders this)" and m: "mergeMode this \<noteq> ''fetchAll''"
  note narrow = queue_narrow_failingAt[OF i]
  note binary = queue_binary_failingAt[OF i]
  show "\<exists>u. snd (propertyInfo mu (failingAt i e this) latency propertyIds) = Some (Inr u)
            \<and> snd (propertyInfo mu (without i this) latency propertyIds) = Some (Inr u)"
    using m by (simp add: propertyInfo_def then_merge_queue callBack_shapes narrow rejecting_rejects)
  show "\<exists>u. snd (classInfo mu (failingAt i e this) latency classIds) = Some (Inr u)
            \<and> snd (classInfo mu (without i this) latency classIds) = Some (Inr u)"
    using m by (simp add: classInfo_def then_merge_queue callBack_shapes narrow rejecting_rejects)
  show "\<exists>u. snd (linkTypesInfo mu (failingAt i e this) latency linkTypeIds) = Some (Inr u)
            \<and> snd (linkTypesInfo mu (without i this) latency linkTypeIds) = Some (Inr u)"
    using m by (simp add: linkTypesInfo_def then_merge_queue callBack_shapes narrow rejecting_rejects)
  show "\<exists>u. snd (elementInfo mu (failingAt i e this) latency elementIds) = Some (Inr u)
            \<and> snd (elementInfo mu (without i this) latency elementIds) = Some (Inr u)"
    using m by (simp add: elementInfo_def then_merge_queue callBack_shapes narrow rejecting_rejects)
  show "\<exists>u. snd (linksInfo mu (failingAt i e this) latency linksParams) = Some (Inr u)
            \<and> snd (linksInfo mu (without i this) latency linksParams) = Some (Inr u)"
    using m by (simp add: linksInfo_def then_merge_queue callBack_shapes narrow rejecting_rejects)
  show "\<exists>u. snd (linkTypesOf mu (failingAt i e this) latency elementId) = Some (Inr u)
            \<and> snd (linkTypesOf mu (without i this) latency elementId) = Some (Inr u)"
    using m by (simp add: linkTypesOf_def then_merge_queue callBack_shapes binary rejecting_rejects)
  show "\<exists>u. snd (linkElements mu (failingAt i e this) latency linkParams) = Some (Inr u)
            \<and> snd (linkElements mu (without i this) latency linkParams) = Some (Inr u)"
    using m by (simp add: linkElements_def then_merge_queue callBack_shapes binary rejecting_rejects)
  show "\<exists>u. snd (filter_op mu (failingAt i e this) latency filterParams) = Some (Inr u)
            \<and> snd (filter_op mu (without i this) latency filterParams) = Some (Inr u)"
    using m by (simp add: filter_op_def then_merge_queue callBack_shapes binary rejecting_rejects)
qed

text \<open>With B failing under \<^verbatim>\<open>fetchAll\<close> the output is what A alone holds; with A failing
  under \<^verbatim>\<open>sequentialFetching\<close> the output is that of the registry holding B alone.\<close>

theorem fault_isolation_witness:
  "1 < length (dataProviders fetchAllAB) \<and> mergeMode fetchAllAB = ''fetchAll''
   \<and> snd (elementInfo specMergeUtils (failingAt 1 (Error ''unreachable'') fetchAllAB) lastFirst
            [''1'', ''2'', ''3'']) =
       Some (Inr [(''1'', ElementModel ''1'' ''a1''), (''2'', ElementModel ''2'' ''a2'')])
   \<and> 0 < length (dataProviders sequentialAB) \<and> mergeMode sequentialAB \<noteq> ''fetchAll''
   \<and> snd (elementInfo specMergeUtils (failingAt 0 (Error ''unreachable'') sequentialAB) simultaneous
            [''1'', ''2'', ''3'']) =
       Some (Inr [(''2'', ElementModel ''2'' ''b2''), (''3'', ElementModel ''3'' ''b3'')])
   \<and> snd (elementInfo specMergeUtils (without 0 sequentialAB) simultaneous [''1'', ''2'', ''3'']) =
       Some (Inr [(''2'', ElementModel ''2'' ''b2''), (''3'', ElementModel ''3'' ''b3'')])"
proof -
  let ?ids = "[''1'', ''2'', ''3'']"
  let ?e = "Error ''unreachable''"
  have l1: "1 < length (dataProviders fetchAllAB)" and m1: "mergeMode fetchAllAB = ''fetchAll''"
    by (simp_all add: fetchAllAB_def)
  have l0: "0 < length (dataProviders sequentialAB)" and m0: "mergeMode sequentialAB \<noteq> ''fetchAll''"
    by (simp_all add: sequentialAB_def)
  have "snd (elementInfo specMergeUtils (failingAt 1 ?e fetchAllAB) lastFirst ?ids) =
          Some (Inr (mergeElementInfo specMergeUtils ((taggedResults dp_elementInfo ?ids (dataProviders fetchAllAB))
            [1 := \<lparr>dataSourceName = name (dataProviders fetchAllAB ! 1), response = None\<rparr>])))"
    using fault_isolation[OF l1, of specMergeUtils ?e lastFirst _ _ _ ?ids] m1 by blast
  then have a: "snd (elementInfo specMergeUtils (failingAt 1 ?e fetchAllAB) lastFirst ?ids) =
       Some (Inr [(''1'', ElementModel ''1'' ''a1''), (''2'', ElementModel ''2'' ''a2'')])"
    by (simp add: taggedResults_def taggedResult_def example_defs)
  have w: "snd (elementInfo specMergeUtils (without 0 sequentialAB) simultaneous ?ids) =
       Some (Inr [(''2'', ElementModel ''2'' ''b2''), (''3'', ElementModel ''3'' ''b3'')])"
    by (simp add: elementInfo_def then_merge_queue elementInfo_callBack_def example_defs Let_def without_def)
  have "\<exists>u. snd (elementInfo specMergeUtils (failingAt 0 ?e sequentialAB) simultaneous ?ids) = Some (Inr u)
            \<and> snd (elementInfo specMergeUtils (without 0 sequentialAB) simultaneous ?ids) = Some (Inr u)"
    using fault_isolation[OF l0, of specMergeUtils ?e simultaneous _ _ _ ?ids] m0 by blast
  with w have b: "snd (elementInfo specMergeUtils (failingAt 0 ?e sequentialAB) simultaneous ?ids) =
       Some (Inr [(''2'', ElementModel ''2'' ''b2''), (''3'', ElementModel ''3'' ''b3'')])"
    by auto
  from l1 m1 a l0 m0 b w show ?thesis by blast
qed

text \<open>Claim C1 as stated fails under \<^verbatim>\<open>sequentialFetching\<close>. For \<^verbatim>\<open>elementInfo\<close> of the ids
  1, 2, 3 on A and B with A failing, the output is not the merge of the all-succeed list
  with A's entry replaced by an absent response: the list given to the merge function has
  no entry for A, and B, asked for all three ids, also contributes element 2.\<close>

theorem fault_isolation_counterexample:
  "snd (elementInfo specMergeUtils (failingAt 0 (Error ''unreachable'') sequentialAB) simultaneous
          [''1'', ''2'', ''3'']) \<noteq>
     Some (Inr (mergeElementInfo specMergeUtils
       ((succeeded dp_elementInfo (dataProviders sequentialAB)
           (fst (elementInfo specMergeUtils sequentialAB simultaneous [''1'', ''2'', ''3''])))
          [0 := \<lparr>dataSourceName = ''A'', response = None\<rparr>])))
   \<and> snd (elementInfo specMergeUtils (failingAt 0 (Error ''unreachable'') sequentialAB) simultaneous
          [''1'', ''2'', ''3'']) =
     Some (Inr [(''2'', ElementModel ''2'' ''b2''), (''3'', ElementModel ''3'' ''b3'')])
   \<and> succeeded dp_elementInfo (dataProviders (failingAt 0 (Error ''unreachable'') sequentialAB))
        (fst (elementInfo specMergeUtils (failingAt 0 (Error ''unreachable'') sequentialAB) simultaneous
               [''1'', ''2'', ''3''])) =
       [\<lparr>dataSourceName = ''B'',
          response = Some [(''2'', ElementModel ''2'' ''b2''), (''3'', ElementModel ''3'' ''b3'')]\<rparr>]
   \<and> succeeded dp_elementInfo (dataProviders sequentialAB)
        (fst (elementInfo specMergeUtils sequentialAB simultaneous [''1'', ''2'', ''3''])) =
       [\<lparr>dataSourceName = ''A'',
          response = Some [(''1'', ElementModel ''1'' ''a1''), (''2'', ElementModel ''2'' ''a2'')]\<rparr>,
        \<lparr>dataSourceName = ''B'', response = Some [(''3'', ElementModel ''3'' ''b3'')]\<rparr>]
   \<and> mergeElementInfo specMergeUtils
        [\<lparr>dataSourceName = ''A'', response = None\<rparr>,
         \<lparr>dataSourceName = ''B'', response = Some [(''3'', ElementModel ''3'' ''b3'')]\<rparr>] =
       [(''3'', ElementModel ''3'' ''b3'')]"
  by (simp add: elementInfo_def then_merge_queue elementInfo_callBack_def example_defs Let_def
        failingAt_def succeeded_Cons succeeded_Nil)

section \<open>Dictionaries merged after the specification\<close>

lemma map_of_filter_keys:
  "map_of (filter (\<lambda>(k, v). P k) xs) k = (if P k then map_of xs k else None)"
  by (induction xs) auto

lemma map_of_mergeDictionary_Cons:
  "map_of (mergeDictionary (r # rs)) k =
     (case response r of
        None \<Rightarrow> map_of (mergeDictionary rs) k
      | Some d \<Rightarrow> (case map_of d k of Some v \<Rightarrow> Some v | None \<Rightarrow> map_of (mergeDictionary rs) k))"
  by (simp add: map_of_filter_keys map_add_def split: option.splits)

lemma map_of_mergeDictionary_skip:
  "\<forall>r \<in> set pre. (case response r of None \<Rightarrow> True | Some d \<Rightarrow> map_of d k = None) \<Longrightarrow>
   map_of (mergeDictionary (pre @ rest)) k = map_of (mergeDictionary rest) k"
proof (induction pre)
  case Nil
  then show ?case by simp
next
  case (Cons r pre)
  then have "map_of (mergeDictionary (pre @ rest)) k = map_of (mergeDictionary rest) k" by simp
  moreover from Cons.prems have "case response r of None \<Rightarrow> True | Some d \<Rightarrow> map_of d k = None" by simp
  ultimately show ?case
    by (simp only: append_Cons map_of_mergeDictionary_Cons) (simp split: option.splits)
qed

text \<open>Claim C6. In a dictionary merged as the specification says, the entry of a key is the
  payload of the first tagged result, in list order, whose response has the key; the
  responses after it do not matter. The merge functions of \<^verbatim>\<open>propertyInfo\<close>, \<^verbatim>\<open>elementInfo\<close>,
  \<^verbatim>\<open>linkElements\<close> and \<^verbatim>\<open>filter\<close> are this merge.\<close>

theorem first_registered_wins:
  "\<forall>r \<in> set pre. (case response r of None \<Rightarrow> True | Some d \<Rightarrow> map_of d k = None) \<Longrightarrow>
   response r = Some d \<Longrightarrow> map_of d k = Some v \<Longrightarrow>
     map_of (mergeDictionary (pre @ r # post)) k = Some v
   \<and> mergePropertyInfo specMergeUtils = mergeDictionary
   \<and> mergeElementInfo specMergeUtils = mergeDictionary
   \<and> mergeLinkElements specMergeUtils = mergeDictionary
   \<and> mergeFilter specMergeUtils = mergeDictionary"
  by (simp add: map_of_mergeDictionary_skip map_of_mergeDictionary_Cons specMergeUtils_def
        del: mergeDictionary.simps)

text \<open>A and B both answer id 2; the merged entry is A's payload.\<close>

theorem first_registered_wins_witness:
  "response (taggedResult dp_elementInfo [''2''] providerA) = Some [(''2'', ElementModel ''2'' ''a2'')]
   \<and> response (taggedResult dp_elementInfo [''2''] providerB) = Some [(''2'', ElementModel ''2'' ''b2'')]
   \<and> map_of [(''2'', ElementModel ''2'' ''a2'')] ''2'' = Some (ElementModel ''2'' ''a2'')
   \<and> map_of (mergeDictionary ([] @ taggedResult dp_elementInfo [''2''] providerA
                                  # [taggedResult dp_elementInfo [''2''] providerB])) ''2'' =
       Some (ElementModel ''2'' ''a2'')
   \<and> snd (elementInfo specMergeUtils fetchAllAB lastFirst [''2'']) =
       Some (Inr [(''2'', ElementModel ''2'' ''a2'')])"
proof -
  have a: "response (taggedResult dp_elementInfo [''2''] providerA) = Some [(''2'', ElementModel ''2'' ''a2'')]"
    and b: "response (taggedResult dp_elementInfo [''2''] providerB) = Some [(''2'', ElementModel ''2'' ''b2'')]"
    by (simp_all add: taggedResult_def example_defs)
  have k: "map_of [(''2'', ElementModel ''2'' ''a2'')] ''2'' = Some (ElementModel ''2'' ''a2'')"
    by simp
  have "map_of (mergeDictionary ([] @ taggedResult dp_elementInfo [''2''] providerA
                                  # [taggedResult dp_elementInfo [''2''] providerB])) ''2'' =
       Some (ElementModel ''2'' ''a2'')"
    using first_registered_wins[of "[]" "''2''" "taggedResult dp_elementInfo [''2''] providerA",
        OF _ a k] by simp
  moreover have "snd (elementInfo specMergeUtils fetchAllAB lastFirst [''2'']) =
       Some (Inr [(''2'', ElementModel ''2'' ''a2'')])"
    by (simp add: elementInfo_def fetchSequentially_eq taggedResults_def taggedResult_def example_defs)
  ultimately show ?thesis using a b k by simp
qed

section \<open>Construction\<close>

lemma nameProviders_nth:
  "nameProviders c dps =
     map (\<lambda>i. case dps ! i of
                 Definition d \<Rightarrow> d
               | Provider p \<Rightarrow>
                   \<lparr>name = ''dataProvider_'' @
                      string_of_nat (c + length (filter (\<lambda>x. \<not> isDefenition x) (take i dps))),
                    dataProvider = p\<rparr>)
       [0..<length dps]"
proof (induction c dps rule: nameProviders.induct)
  case (1 dpCounter)
  then show ?case by simp
next
  case (2 dpCounter d rest)
  have "[0..<length (Definition d # rest)] = 0 # map Suc [0..<length rest]"
    by (simp add: upt_conv_Cons map_Suc_upt del: upt_Suc)
  then show ?case
    by (simp add: "2.IH" o_def del: upt_Suc cong: DPInput.case_cong)
next
  case (3 dpCounter p rest)
  have "[0..<length (Provider p # rest)] = 0 # map Suc [0..<length rest]"
    by (simp add: upt_conv_Cons map_Suc_upt del: upt_Suc)
  with "3.IH" show ?case
    by (simp add: o_def del: upt_Suc cong: DPInput.case_cong)
qed

text \<open>Claim C8, as amended. The constructor never fails: it accepts every list of providers,
  the empty one too, and every mode string. Definitions are kept as they are; the bare
  providers are named \<^verbatim>\<open>dataProvider_1\<close>, \<^verbatim>\<open>dataProvider_2\<close>, ... in list order, the number
  counting bare providers only. Without a non-empty mode the mode is \<^verbatim>\<open>fetchAll\<close>.\<close>

theorem construction_never_fails:
  "constructor dps params =
     Inr \<lparr>dataProviders = nameProviders 1 dps,
          mergeMode = (case params of Some (Some m) \<Rightarrow> if m = [] then ''fetchAll'' else m
                                    | _ \<Rightarrow> ''fetchAll'')\<rparr>
   \<and> nameProviders 1 dps =
       map (\<lambda>i. case dps ! i of
                   Definition d \<Rightarrow> d
                 | Provider p \<Rightarrow>
                     \<lparr>name = ''dataProvider_'' @
                        string_of_nat (1 + length (filter (\<lambda>x. \<not> isDefenition x) (take i dps))),
                      dataProvider = p\<rparr>)
         [0..<length dps]"
  by (rule conjI, simp add: constructor_def split: option.splits, rule nameProviders_nth)

text \<open>Claim C8 as stated fails: the empty list and an unknown mode are accepted.\<close>

theorem construction_counterexample:
  "constructor [] None = Inr \<lparr>dataProviders = [], mergeMode = ''fetchAll''\<rparr>
   \<and> constructor [Provider (rejecting (Error ''unreachable''))] (Some (Some ''bogus'')) =
       Inr \<lparr>dataProviders =
              [\<lparr>name = ''dataProvider_1'', dataProvider = rejecting (Error ''unreachable'')\<rparr>],
            mergeMode = ''bogus''\<rparr>"
  by (simp add: constructor_def string_of_nat.simps)

section \<open>Parameter passing\<close>

subsection \<open>All providers, one reference\<close>





subsection \<open>New objects for the narrowed ids\<close>




lemma callEach_promises:
  "\<forall>dp \<in> set dps. readOnly dp \<Longrightarrow>
   snd (snd (callEach dps params w)) =
     map (\<lambda>dp. processResults (snd (snd dp params w)) (fst dp)) dps"
proof (induction dps arbitrary: w)
  case Nil
  then show ?case by simp
next
  case (Cons dp dps)
  then have "fst (snd dp params w) = w" by (simp add: readOnly_def)
  with Cons show ?case by (simp add: case_prod_beta)
qed

lemma fetchSequentially_ref_outcome:
  assumes "\<forall>dp \<in> set dps. readOnly dp"
  shows "snd (snd (fetchSequentially_ref dps latency mergeFunction params w)) =
     Some (Inr (mergeFunction
       (map (\<lambda>dp. \<lparr>dataSourceName = fst dp,
                   response = (case snd (snd dp params w) of Inl e \<Rightarrow> None | Inr r \<Rightarrow> Some r)\<rparr>) dps)))"
proof -
  have "snd (snd (callEach dps params w)) =
      map Inr (map (\<lambda>dp. \<lparr>dataSourceName = fst dp,
                   response = (case snd (snd dp params w) of Inl e \<Rightarrow> None | Inr r \<Rightarrow> Some r)\<rparr>) dps)"
    by (simp add: callEach_promises[OF assms] processResults_eq)
  then have "Promise_all latency (snd (snd (callEach dps params w))) =
      Some (Inr (map (\<lambda>dp. \<lparr>dataSourceName = fst dp,
                   response = (case snd (snd dp params w) of Inl e \<Rightarrow> None | Inr r \<Rightarrow> Some r)\<rparr>) dps))"
    by (simp only: Promise_all_fulfilled)
  then show ?thesis
    by (simp add: fetchSequentially_ref_def case_prod_beta then_promise_def)
qed

subsection \<open>Agreement of the two models\<close>

text \<open>On providers that only read their parameter object, the operations by reference give
  the outputs of the operations by value.\<close>

lemma readOnly_byReference: "readOnly (byReference f dp)"
  by (simp add: readOnly_def byReference_def)

lemma fetchSequentially_byReference:
  "snd (snd (fetchSequentially_ref (map (byReference f) (dataProviders this)) latency mergeFunction params w)) =
   snd (fetchSequentially this latency f mergeFunction (w ! params))"
proof -
  have "\<forall>dp \<in> set (map (byReference f) (dataProviders this)). readOnly dp"
    by (simp add: readOnly_byReference)
  then show ?thesis
    by (simp add: fetchSequentially_ref_outcome fetchSequentially_eq taggedResults_def
          o_def byReference_def)
       (simp add: taggedResult_def [abs_def])
qed

lemma queue_ref_byReference:
  "snd (snd (queue_ref (binaryCallBack_ref isE params) (map (byReference f) dps) u result w)) =
   snd (queue (binaryCallBack isE f (w ! params)) i dps u result)"
proof (induction dps arbitrary: result i)
  case Nil
  then show ?case by simp
next
  case (Cons dp dps)
  show ?case
  proof (cases "case result of None \<Rightarrow> True | Some prev \<Rightarrow> isE prev")
    case False
    then show ?thesis by (simp add: binaryCallBack_ref_def binaryCallBack_def)
  next
    case True
    show ?thesis
    proof (cases "f (dataProvider dp) (w ! params)")
      case (Inl e)
      with True Cons.IH[of result "i + 1"] show ?thesis
        by (simp add: binaryCallBack_ref_def binaryCallBack_def byReference_def case_prod_beta)
    next
      case (Inr newResult)
      with True Cons.IH[of "Some newResult" "i + 1"] show ?thesis
        by (simp add: binaryCallBack_ref_def binaryCallBack_def byReference_def case_prod_beta)
    qed
  qed
qed

lemma binary_byReference:
  "snd (snd (binary_ref isE (map (byReference f) (dataProviders this)) mergeFunction params w)) =
   snd (then_merge (queueProcessResults this (binaryCallBack isE f (w ! params)) ()) mergeFunction)"
  by (simp add: binary_ref_def case_prod_beta then_merge_queue queue_ref_byReference[of _ _ _ _ _ _ _ 0])

lemma queue_ref_byReferenceIds:
  "ids < length (arrays st) \<Longrightarrow>
   snd (snd (queue_ref (narrowCallBack_ref R) (map (byReferenceIds f) dps) ids result st)) =
   snd (queue (narrowCallBack R f (\<lambda>ids. ids)) i dps (arrays st ! ids) result)"
proof (induction dps arbitrary: ids result st i)
  case Nil
  then show ?case by simp
next
  case (Cons dp dps)
  define filtered where
    "filtered = filter (\<lambda>id. case result of None \<Rightarrow> True | Some prev \<Rightarrow> \<not> R prev id) (arrays st ! ids)"
  define st2 where
    "st2 = st\<lparr>arrays := arrays st @ [filtered], objects := objects st @ [length (arrays st)]\<rparr>"
  have ids': "length (arrays st) < length (arrays st2)" and arr: "arrays st2 ! length (arrays st) = filtered"
    by (simp_all add: st2_def)
  show ?case
  proof (cases "filtered = []")
    case True
    then show ?thesis
      by (simp add: narrowCallBack_ref_def narrowCallBack_def Let_def filtered_def[symmetric])
  next
    case False
    have read: "snd (byReferenceIds f dp) (length (objects st)) st2 = (st2, f (dataProvider dp) filtered)"
      by (simp add: byReferenceIds_def st2_def)
    have cbr: "narrowCallBack_ref R ids result (byReferenceIds f dp) st =
        (length (arrays st), st2, Some (length (objects st), f (dataProvider dp) filtered))"
      using False read
      by (simp add: narrowCallBack_ref_def Let_def filtered_def[symmetric] st2_def)
    have cbv: "narrowCallBack R f (\<lambda>ids. ids) (arrays st ! ids) result dp =
        (filtered, Some (filtered, f (dataProvider dp) filtered))"
      using False by (simp add: narrowCallBack_def Let_def filtered_def[symmetric])
    show ?thesis
    proof (cases "f (dataProvider dp) filtered")
      case (Inl e)
      with cbr cbv Cons.IH[OF ids', of result "i + 1"] arr show ?thesis
        by (simp add: case_prod_beta)
    next
      case (Inr newResult)
      with cbr cbv Cons.IH[OF ids', of "Some newResult" "i + 1"] arr show ?thesis
        by (simp add: case_prod_beta byReferenceIds_def)
    qed
  qed
qed

lemma narrowing_byReferenceIds:
  "objects st ! params < length (arrays st) \<Longrightarrow>
   snd (snd (narrowing_ref R (map (byReferenceIds f) (dataProviders this)) mergeFunction params st)) =
   snd (then_merge (queueProcessResults this (narrowCallBack R f (\<lambda>ids. ids))
                      (arrays st ! (objects st ! params))) mergeFunction)"
  by (simp add: narrowing_ref_def Let_def case_prod_beta then_merge_queue
        queue_ref_byReferenceIds[of _ _ _ _ _ _ 0])





end
